theory Spec2Isabelle
  imports Complex_Main
begin

section \<open>JavaScript values and strings\<close>

text \<open>
  A JavaScript string is a sequence of UTF-16 code units. A code unit is modelled as a
  natural number (the values below 65536 are the ones that occur); the string methods the
  source calls on code units (\<^verbatim>\<open>charAt\<close>, \<^verbatim>\<open>slice\<close>, a regular expression without the
  \<^verbatim>\<open>u\<close> flag) work on this list directly, and the regular expressions with the
  \<^verbatim>\<open>u\<close> flag work on its code points (\<open>code_points\<close> below).
\<close>

type_synonym code_unit = nat
type_synonym jsstring = "code_unit list"

definition js :: "string \<Rightarrow> jsstring" where
  \<comment> \<open>an ASCII string literal of the source, as code units\<close>
  "js cs = map of_char cs"

text \<open>
  A number is an IEEE double: NaN, the two infinities, or a finite value, which is a
  rational. The source computes with finite values only below \<open>10 ^ 12\<close>, where
  \<^verbatim>\<open>%\<close> is exact and \<^verbatim>\<open>Math.floor(a / b)\<close> is the floor of the exact quotient.
\<close>

datatype jsnum = NaN | PosInfinity | NegInfinity | Finite rat

text \<open>
  The values a function of the source can be called with. The source observes of a value
  that is neither a string nor a number only \<^verbatim>\<open>typeof\<close>, the comparison with
  \<^verbatim>\<open>null\<close> and \<^verbatim>\<open>undefined\<close>, and \<^verbatim>\<open>String(v)\<close>: an object, function,
  symbol or bigint is \<open>JOther t\<close>, with \<open>t\<close> the text \<^verbatim>\<open>String\<close> gives for it.
\<close>

datatype jsval =
    JNull
  | JUndefined
  | JBool bool
  | JNum jsnum
  | JStr jsstring
  | JOther jsstring

text \<open>
  What the source takes from the JavaScript runtime and this development does not define:
  the Unicode tables beyond ASCII (the general categories L and N of a code point, given
  by its code units, and the case mappings of a string that is not pure ASCII), the double
  nearest to a decimal integer above \<open>2 ^ 53\<close>, and the text of a number that is not an
  integer of magnitude at most \<open>2 ^ 53\<close>. Every function below takes them as the
  parameter \<open>U\<close>; every theorem holds for each value of it.
\<close>

record runtime =
  unicode_L :: "jsstring \<Rightarrow> bool"
  unicode_N :: "jsstring \<Rightarrow> bool"
  unicode_lower :: "jsstring \<Rightarrow> jsstring"
  unicode_upper :: "jsstring \<Rightarrow> jsstring"
  parse_large :: "nat \<Rightarrow> jsnum"
  number_text :: "jsnum \<Rightarrow> jsstring"

definition ascii_runtime :: runtime where
  \<comment> \<open>a runtime that knows no letter, digit or case mapping beyond ASCII; used where a
     closed instance is evaluated\<close>
  "ascii_runtime = \<lparr> unicode_L = (\<lambda>cp. False), unicode_N = (\<lambda>cp. False),
     unicode_lower = (\<lambda>s. s), unicode_upper = (\<lambda>s. s),
     parse_large = (\<lambda>n. PosInfinity), number_text = (\<lambda>x. []) \<rparr>"

subsection \<open>Character classes\<close>

definition is_upper_AZ :: "code_unit \<Rightarrow> bool" where
  \<comment> \<open>\<^verbatim>\<open>[A-Z]\<close>\<close>
  "is_upper_AZ c = (65 \<le> c \<and> c \<le> 90)"

definition is_lower_az :: "code_unit \<Rightarrow> bool" where
  \<comment> \<open>\<^verbatim>\<open>[a-z]\<close>\<close>
  "is_lower_az c = (97 \<le> c \<and> c \<le> 122)"

definition is_digit :: "code_unit \<Rightarrow> bool" where
  \<comment> \<open>\<^verbatim>\<open>\d\<close> and \<^verbatim>\<open>[0-9]\<close>\<close>
  "is_digit c = (48 \<le> c \<and> c \<le> 57)"

definition is_space :: "code_unit \<Rightarrow> bool" where
  \<comment> \<open>\<^verbatim>\<open>\s\<close>, and what \<^verbatim>\<open>trim\<close> strips: WhiteSpace and LineTerminator of ECMAScript\<close>
  "is_space c = (c = 9 \<or> c = 10 \<or> c = 11 \<or> c = 12 \<or> c = 13 \<or> c = 32 \<or> c = 160
     \<or> c = 5760 \<or> (8192 \<le> c \<and> c \<le> 8202) \<or> c = 8232 \<or> c = 8233 \<or> c = 8239
     \<or> c = 8287 \<or> c = 12288 \<or> c = 65279)"

definition is_ascii :: "code_unit \<Rightarrow> bool" where
  "is_ascii c = (c < 128)"

subsection \<open>String methods\<close>

definition trim :: "jsstring \<Rightarrow> jsstring" where
  \<comment> \<open>\<^verbatim>\<open>s.trim()\<close>\<close>
  "trim s = rev (dropWhile is_space (rev (dropWhile is_space s)))"

definition ascii_lower :: "code_unit \<Rightarrow> code_unit" where
  "ascii_lower c = (if is_upper_AZ c then c + 32 else c)"

definition ascii_upper :: "code_unit \<Rightarrow> code_unit" where
  "ascii_upper c = (if is_lower_az c then c - 32 else c)"

definition toLowerCase :: "runtime \<Rightarrow> jsstring \<Rightarrow> jsstring" where
  \<comment> \<open>\<^verbatim>\<open>s.toLowerCase()\<close>: on a pure ASCII string, unit by unit\<close>
  "toLowerCase U s = (if list_all is_ascii s then map ascii_lower s else unicode_lower U s)"

definition toUpperCase :: "runtime \<Rightarrow> jsstring \<Rightarrow> jsstring" where
  \<comment> \<open>\<^verbatim>\<open>s.toUpperCase()\<close>\<close>
  "toUpperCase U s = (if list_all is_ascii s then map ascii_upper s else unicode_upper U s)"

fun replace_each :: "('a \<Rightarrow> bool) \<Rightarrow> 'a \<Rightarrow> 'a list \<Rightarrow> 'a list" where
  \<comment> \<open>\<^verbatim>\<open>s.replace(/[P]/g, r)\<close>: every element of the class becomes \<open>r\<close>\<close>
  "replace_each P r [] = []"
| "replace_each P r (x # xs) = (if P x then r else x) # replace_each P r xs"

fun replace_runs :: "('a \<Rightarrow> bool) \<Rightarrow> 'a \<Rightarrow> 'a list \<Rightarrow> 'a list" where
  \<comment> \<open>\<^verbatim>\<open>s.replace(/[P]+/g, r)\<close>: every maximal run of the class becomes one \<open>r\<close>
     (emitted at the last element of the run)\<close>
  "replace_runs P r [] = []"
| "replace_runs P r (x # xs) =
     (if P x then (if xs \<noteq> [] \<and> P (hd xs) then replace_runs P r xs
                   else r # replace_runs P r xs)
      else x # replace_runs P r xs)"

fun split_runs :: "('a \<Rightarrow> bool) \<Rightarrow> 'a list \<Rightarrow> 'a list list" where
  \<comment> \<open>\<^verbatim>\<open>s.split(/[P]+/)\<close>: the fields between the maximal runs of the class; a run at
     the start or at the end leaves an empty field there, and the empty string gives one
     empty field\<close>
  "split_runs P [] = [[]]"
| "split_runs P (x # xs) =
     (if P x then (if xs \<noteq> [] \<and> P (hd xs) then split_runs P xs else [] # split_runs P xs)
      else (case split_runs P xs of [] \<Rightarrow> [[x]] | f # fs \<Rightarrow> (x # f) # fs))"

fun split_keep :: "('a \<Rightarrow> bool) \<Rightarrow> 'a list \<Rightarrow> 'a list list" where
  \<comment> \<open>\<^verbatim>\<open>s.split(/([P]+)/)\<close>: as \<open>split_runs\<close>, with each run kept between its fields\<close>
  "split_keep P [] = [[]]"
| "split_keep P (x # xs) =
     (if P x then
        (if xs \<noteq> [] \<and> P (hd xs) then
           (case split_keep P xs of f # d # rest \<Rightarrow> f # (x # d) # rest | fs \<Rightarrow> [] # [x] # fs)
         else [] # [x] # split_keep P xs)
      else (case split_keep P xs of [] \<Rightarrow> [[x]] | f # fs \<Rightarrow> (x # f) # fs))"

definition non_empty :: "'a list list \<Rightarrow> 'a list list" where
  \<comment> \<open>\<^verbatim>\<open>.filter(Boolean)\<close> on an array of strings\<close>
  "non_empty xs = filter (\<lambda>x. x \<noteq> []) xs"

fun join :: "jsstring \<Rightarrow> jsstring list \<Rightarrow> jsstring" where
  \<comment> \<open>\<^verbatim>\<open>parts.join(sep)\<close>\<close>
  "join sep [] = []"
| "join sep [x] = x"
| "join sep (x # y # ys) = x @ sep @ join sep (y # ys)"

definition join_parts :: "jsstring \<Rightarrow> jsstring option list \<Rightarrow> jsstring" where
  \<comment> \<open>\<^verbatim>\<open>join\<close> on an array that may hold \<^verbatim>\<open>undefined\<close> (\<open>None\<close>), joined as the
     empty string\<close>
  "join_parts sep parts = join sep (map (\<lambda>p. case p of None \<Rightarrow> [] | Some t \<Rightarrow> t) parts)"

subsection \<open>Code points and Unicode properties\<close>

definition is_high_surrogate :: "code_unit \<Rightarrow> bool" where
  "is_high_surrogate c = (55296 \<le> c \<and> c \<le> 56319)"

definition is_low_surrogate :: "code_unit \<Rightarrow> bool" where
  "is_low_surrogate c = (56320 \<le> c \<and> c \<le> 57343)"

fun code_points :: "jsstring \<Rightarrow> jsstring list" where
  \<comment> \<open>the code points a regular expression with the \<^verbatim>\<open>u\<close> flag sees, each as its one or
     two code units: a high surrogate with the low surrogate after it is one code point\<close>
  "code_points [] = []"
| "code_points [c] = [[c]]"
| "code_points (h # l # cs) =
     (if is_high_surrogate h \<and> is_low_surrogate l then [h, l] # code_points cs
      else [h] # code_points (l # cs))"

definition is_L :: "runtime \<Rightarrow> jsstring \<Rightarrow> bool" where
  \<comment> \<open>\<^verbatim>\<open>\p{L}\<close>\<close>
  "is_L U cp = (case cp of
       [c] \<Rightarrow> if is_ascii c then is_upper_AZ c \<or> is_lower_az c else unicode_L U cp
     | _ \<Rightarrow> unicode_L U cp)"

definition is_N :: "runtime \<Rightarrow> jsstring \<Rightarrow> bool" where
  \<comment> \<open>\<^verbatim>\<open>\p{N}\<close>\<close>
  "is_N U cp = (case cp of
       [c] \<Rightarrow> if is_ascii c then is_digit c else unicode_N U cp
     | _ \<Rightarrow> unicode_N U cp)"

definition is_space_cp :: "jsstring \<Rightarrow> bool" where
  \<comment> \<open>\<^verbatim>\<open>\s\<close> on a code point\<close>
  "is_space_cp cp = (case cp of [c] \<Rightarrow> is_space c | _ \<Rightarrow> False)"

subsection \<open>Regular expressions used with \<^verbatim>\<open>test\<close>\<close>

datatype rx =
    Chars "code_unit \<Rightarrow> bool"
  | Cat rx rx
  | Alt rx rx
  | Star rx
  | Eps
  | Fail

fun nullable :: "rx \<Rightarrow> bool" where
  "nullable (Chars P) = False"
| "nullable (Cat r s) = (nullable r \<and> nullable s)"
| "nullable (Alt r s) = (nullable r \<or> nullable s)"
| "nullable (Star r) = True"
| "nullable Eps = True"
| "nullable Fail = False"

fun deriv :: "code_unit \<Rightarrow> rx \<Rightarrow> rx" where
  "deriv c (Chars P) = (if P c then Eps else Fail)"
| "deriv c (Cat r s) =
     (if nullable r then Alt (Cat (deriv c r) s) (deriv c s) else Cat (deriv c r) s)"
| "deriv c (Alt r s) = Alt (deriv c r) (deriv c s)"
| "deriv c (Star r) = Cat (deriv c r) (Star r)"
| "deriv c Eps = Fail"
| "deriv c Fail = Fail"

definition rx_test :: "rx \<Rightarrow> jsstring \<Rightarrow> bool" where
  \<comment> \<open>\<^verbatim>\<open>/^r$/.test(s)\<close>: the whole string is in the language of \<open>r\<close>\<close>
  "rx_test r s = nullable (foldl (\<lambda>r c. deriv c r) r s)"

text \<open>The language of an expression, which \<open>rx_test\<close> decides (\<open>rx_test_lang\<close> below).\<close>

definition conc :: "jsstring set \<Rightarrow> jsstring set \<Rightarrow> jsstring set" where
  "conc A B = {u @ v | u v. u \<in> A \<and> v \<in> B}"

inductive_set star :: "jsstring set \<Rightarrow> jsstring set" for A :: "jsstring set" where
  star_empty: "[] \<in> star A"
| star_more: "u \<in> A \<Longrightarrow> v \<in> star A \<Longrightarrow> u @ v \<in> star A"

fun lang :: "rx \<Rightarrow> jsstring set" where
  "lang (Chars P) = {[c] | c. P c}"
| "lang (Cat r s) = conc (lang r) (lang s)"
| "lang (Alt r s) = lang r \<union> lang s"
| "lang (Star r) = star (lang r)"
| "lang Eps = {[]}"
| "lang Fail = {}"

definition two_or_more :: "rx \<Rightarrow> rx" where
  \<comment> \<open>\<^verbatim>\<open>r{2,}\<close>\<close>
  "two_or_more r = Cat r (Cat r (Star r))"

definition one_or_more :: "rx \<Rightarrow> rx" where
  \<comment> \<open>\<^verbatim>\<open>r+\<close>\<close>
  "one_or_more r = Cat r (Star r)"

definition optional :: "rx \<Rightarrow> rx" where
  \<comment> \<open>\<^verbatim>\<open>r?\<close>\<close>
  "optional r = Alt r Eps"

definition dot_char :: rx where
  \<comment> \<open>\<^verbatim>\<open>\.\<close>\<close>
  "dot_char = Chars (\<lambda>c. c = 46)"

section \<open>refined\_prompt.js: numberToWords\<close>

fun decimal :: "nat \<Rightarrow> jsstring" where
  \<comment> \<open>the decimal digits of a natural number\<close>
  "decimal n = (if n < 10 then [48 + n] else decimal (n div 10) @ [48 + n mod 10])"

declare decimal.simps [simp del]

definition number_to_string :: "runtime \<Rightarrow> jsnum \<Rightarrow> jsstring" where
  \<comment> \<open>\<^verbatim>\<open>String(num)\<close> for a number: an integer of magnitude at most \<open>2 ^ 53\<close> is printed
     in decimal\<close>
  "number_to_string U x = (case x of
       NaN \<Rightarrow> js ''NaN''
     | PosInfinity \<Rightarrow> js ''Infinity''
     | NegInfinity \<Rightarrow> js ''-Infinity''
     | Finite q \<Rightarrow>
         if q = of_int \<lfloor>q\<rfloor> \<and> \<bar>q\<bar> \<le> 2 ^ 53
         then (if q < 0 then 45 # decimal (nat (- \<lfloor>q\<rfloor>)) else decimal (nat \<lfloor>q\<rfloor>))
         else number_text U x)"

fun js_String :: "runtime \<Rightarrow> jsval \<Rightarrow> jsstring" where
  \<comment> \<open>\<^verbatim>\<open>String(v)\<close>\<close>
  "js_String U JNull = js ''null''"
| "js_String U JUndefined = js ''undefined''"
| "js_String U (JBool b) = (if b then js ''true'' else js ''false'')"
| "js_String U (JNum x) = number_to_string U x"
| "js_String U (JStr s) = s"
| "js_String U (JOther t) = t"

definition js_floor :: "rat \<Rightarrow> rat" where
  \<comment> \<open>\<^verbatim>\<open>Math.floor(x)\<close>\<close>
  "js_floor x = of_int \<lfloor>x\<rfloor>"

definition js_rem :: "rat \<Rightarrow> rat \<Rightarrow> rat" where
  \<comment> \<open>\<^verbatim>\<open>a % b\<close>: the remainder of the division truncated towards zero\<close>
  "js_rem a b = a - b * (if 0 \<le> a / b then of_int \<lfloor>a / b\<rfloor> else of_int \<lceil>a / b\<rceil>)"

definition js_index :: "'a list \<Rightarrow> rat \<Rightarrow> 'a option" where
  \<comment> \<open>\<^verbatim>\<open>arr[x]\<close>: \<^verbatim>\<open>undefined\<close> (\<open>None\<close>) unless \<open>x\<close> is an index of the array\<close>
  "js_index arr x =
     (if x = of_int \<lfloor>x\<rfloor> \<and> 0 \<le> x \<and> nat \<lfloor>x\<rfloor> < length arr then Some (arr ! nat \<lfloor>x\<rfloor>) else None)"

definition MAX_limit :: rat where
  \<comment> \<open>\<^verbatim>\<open>MAX\<close> of the source\<close>
  "MAX_limit = 1000000000000"

definition belowTwenty :: "jsstring list" where
  "belowTwenty = map js
     [''zero'', ''one'', ''two'', ''three'', ''four'', ''five'', ''six'', ''seven'', ''eight'',
      ''nine'', ''ten'', ''eleven'', ''twelve'', ''thirteen'', ''fourteen'', ''fifteen'',
      ''sixteen'', ''seventeen'', ''eighteen'', ''nineteen'']"

definition tens :: "jsstring list" where
  "tens = [] # [] # map js
     [''twenty'', ''thirty'', ''forty'', ''fifty'', ''sixty'', ''seventy'', ''eighty'',
      ''ninety'']"

definition scales :: "(rat \<times> jsstring) list" where
  "scales = [(1000000000, js ''billion''), (1000000, js ''million''), (1000, js ''thousand'')]"

definition underThousand :: "rat \<Rightarrow> jsstring" where
  "underThousand n0 =
     (let (parts, n) =
            (if n0 \<ge> 100
             then ([js_index belowTwenty (js_floor (n0 / 100)), Some (js ''hundred'')],
                   js_rem n0 100)
             else ([], n0));
          parts =
            (if n \<ge> 20
             then (let parts = parts @ [js_index tens (js_floor (n / 10))]
                   in if js_rem n 10 \<noteq> 0 then parts @ [js_index belowTwenty (js_rem n 10)]
                      else parts)
             else if n > 0 \<or> length parts = 0 then parts @ [js_index belowTwenty n]
             else parts)
      in join_parts (js '' '') parts)"

definition scale_step :: "rat \<times> jsstring list \<Rightarrow> rat \<times> jsstring \<Rightarrow> rat \<times> jsstring list" where
  \<comment> \<open>one round of the loop over \<open>scales\<close>, on the pair of \<^verbatim>\<open>num\<close> and \<^verbatim>\<open>out\<close>\<close>
  "scale_step st s =
     (case st of (num, out) \<Rightarrow> case s of (v, name) \<Rightarrow>
        if num \<ge> v
        then (let chunk = js_floor (num / v) in (js_rem num v, out @ [underThousand chunk, name]))
        else (num, out))"

fun numberToWords :: "runtime \<Rightarrow> jsval \<Rightarrow> jsstring" where
  "numberToWords U (JNum (Finite num)) =
     (if num < 0 then js_String U (JNum (Finite num))
      else if num \<ge> MAX_limit then js_String U (JNum (Finite num))
      else if num = 0 then js ''zero''
      else
        (case foldl scale_step (num, []) scales of (num', out) \<Rightarrow>
           let out = (if num' > 0 then out @ [underThousand num'] else out)
           in join (js '' '') out))"
| "numberToWords U num = js_String U num"

definition parseInt10 :: "runtime \<Rightarrow> jsstring \<Rightarrow> jsnum" where
  \<comment> \<open>\<^verbatim>\<open>parseInt(part, 10)\<close> on a string of decimal digits: exact up to \<open>2 ^ 53\<close>, the
     nearest double above\<close>
  "parseInt10 U part =
     (let n = foldl (\<lambda>a c. 10 * a + (c - 48)) 0 part
      in if n \<le> 2 ^ 53 then Finite (of_nat n) else parse_large U n)"

section \<open>refined\_prompt.js: toCamelCase\<close>

definition err_null :: jsstring where
  "err_null = js ''Invalid input: value is null or undefined; expected a non-empty string.''"

definition err_not_string :: jsstring where
  "err_not_string = js ''Invalid input: expected a string.''"

definition err_empty :: jsstring where
  "err_empty = js ''Invalid input: empty or whitespace-only string.''"

definition err_no_words :: jsstring where
  "err_no_words = js ''Invalid input: no usable words found after cleaning.''"

definition err_no_units :: jsstring where
  "err_no_units = js ''Invalid input: no word tokens produced after processing.''"

definition cleaned :: "runtime \<Rightarrow> jsstring \<Rightarrow> jsstring" where
  \<comment> \<open>\<^verbatim>\<open>trimmed.replace(/[^\p{L}\p{N}.\s]+/gu, ' ')\<close>\<close>
  "cleaned U trimmed =
     concat (replace_runs (\<lambda>cp. \<not> (is_L U cp \<or> is_N U cp \<or> cp = [46] \<or> is_space_cp cp)) [32]
               (code_points trimmed))"

definition rawTokens :: "runtime \<Rightarrow> jsstring \<Rightarrow> jsstring list" where
  \<comment> \<open>\<^verbatim>\<open>cleaned.split(/\s+/).filter(Boolean)\<close>, from the trimmed input\<close>
  "rawTokens U trimmed = non_empty (split_runs is_space (cleaned U trimmed))"

datatype unit_type = word | acronym

record unit_rec =
  u_type :: unit_type
  u_text :: jsstring

definition remove_dots :: "jsstring \<Rightarrow> jsstring" where
  \<comment> \<open>\<^verbatim>\<open>s.replace(/\./g, '')\<close>\<close>
  "remove_dots s = filter (\<lambda>c. c \<noteq> 46) s"

definition only_letters :: "runtime \<Rightarrow> jsstring \<Rightarrow> jsstring" where
  \<comment> \<open>\<^verbatim>\<open>p.replace(/[^\p{L}]+/gu, '')\<close>\<close>
  "only_letters U p = concat (filter (is_L U) (code_points p))"

definition pushWordChunk :: "runtime \<Rightarrow> jsstring \<Rightarrow> unit_rec list \<Rightarrow> unit_rec list" where
  "pushWordChunk U chunk units =
     (if chunk = [] then units
      else let cleanedChunk = remove_dots chunk
           in if length cleanedChunk = 0 then units
              else units @ [\<lparr>u_type = word, u_text = toLowerCase U cleanedChunk\<rparr>])"

definition acronymRegex :: rx where
  \<comment> \<open>\<^verbatim>\<open>/^[A-Z]{2,}(\.[A-Z]{2,})*$/\<close>\<close>
  "acronymRegex =
     Cat (two_or_more (Chars is_upper_AZ))
         (Star (Cat dot_char (two_or_more (Chars is_upper_AZ))))"

definition dottedAcronymRegex :: rx where
  \<comment> \<open>\<^verbatim>\<open>/^(?:[A-Z]\.){2,}[A-Z]?$/\<close>, of \<^verbatim>\<open>toCamelCase\<close>\<close>
  "dottedAcronymRegex =
     Cat (two_or_more (Cat (Chars is_upper_AZ) dot_char)) (optional (Chars is_upper_AZ))"

definition digit_run :: rx where
  \<comment> \<open>\<^verbatim>\<open>/^\d+$/\<close>\<close>
  "digit_run = one_or_more (Chars is_digit)"

definition camel_number :: "runtime \<Rightarrow> jsstring \<Rightarrow> unit_rec list \<Rightarrow> unit_rec list" where
  \<comment> \<open>the branch of a part that is a digit run\<close>
  "camel_number U part units =
     (let n = parseInt10 U part;
          words = numberToWords U (JNum n)
      in foldl (\<lambda>units w. if w \<noteq> [] then units @ [\<lparr>u_type = word, u_text = toLowerCase U w\<rparr>]
                           else units)
           units (split_runs is_space words))"

definition camel_text :: "runtime \<Rightarrow> jsstring \<Rightarrow> unit_rec list \<Rightarrow> unit_rec list" where
  \<comment> \<open>the branch of a part that is not a digit run\<close>
  "camel_text U part units =
     (let cleanedPart = replace_each (\<lambda>c. c = 46) 32 part
      in foldl (\<lambda>units p.
                  if p = [] then units
                  else let onlyLetters = only_letters U p
                       in if onlyLetters \<noteq> [] then pushWordChunk U onlyLetters units
                          else units)
           units (split_runs is_space cleanedPart))"

definition camel_token :: "runtime \<Rightarrow> unit_rec list \<Rightarrow> jsstring \<Rightarrow> unit_rec list" where
  \<comment> \<open>one round of the loop over \<^verbatim>\<open>rawTokens\<close>\<close>
  "camel_token U units token =
     (if rx_test acronymRegex token \<or> rx_test dottedAcronymRegex token
      then (let acronym_text = remove_dots token
            in units @ [\<lparr>u_type = acronym, u_text = acronym_text\<rparr>])
      else
        (let parts = non_empty (split_keep is_digit token)
         in foldl (\<lambda>units part.
                     if rx_test digit_run part then camel_number U part units
                     else camel_text U part units)
              units parts))"

definition camel_units :: "runtime \<Rightarrow> jsstring list \<Rightarrow> unit_rec list" where
  "camel_units U tokens = foldl (camel_token U) [] tokens"

definition camel_piece :: "runtime \<Rightarrow> nat \<Rightarrow> unit_rec \<Rightarrow> jsstring" where
  \<comment> \<open>what the rendering loop appends to \<^verbatim>\<open>result\<close> for the unit at index \<open>i\<close>\<close>
  "camel_piece U i u =
     (if i = 0 then
        (if u_type u = acronym then u_text u else toLowerCase U (u_text u))
      else
        (if u_type u = acronym then u_text u
         else toUpperCase U (take 1 (u_text u)) @ toLowerCase U (drop 1 (u_text u))))"

definition camel_render :: "runtime \<Rightarrow> unit_rec list \<Rightarrow> jsstring" where
  "camel_render U units =
     foldl (\<lambda>result (i, u). result @ camel_piece U i u) [] (zip [0..<length units] units)"

definition camel_string :: "runtime \<Rightarrow> jsstring \<Rightarrow> jsstring" where
  \<comment> \<open>the body of \<^verbatim>\<open>toCamelCase\<close> on a string\<close>
  "camel_string U input =
     (let trimmed = trim input
      in if length trimmed = 0 then err_empty
         else
           let tokens = rawTokens U trimmed
           in if length tokens = 0 then err_no_words
              else
                let units = camel_units U tokens
                in if length units = 0 then err_no_units
                   else camel_render U units)"

fun toCamelCase :: "runtime \<Rightarrow> jsval \<Rightarrow> jsstring" where
  "toCamelCase U JNull = err_null"
| "toCamelCase U JUndefined = err_null"
| "toCamelCase U (JStr input) = camel_string U input"
| "toCamelCase U v = err_not_string"

section \<open>refined\_prompt.js: toDotCase\<close>

text \<open>
  \<^verbatim>\<open>toDotCase\<close> repeats the validation, the cleaning and the splitting into tokens of
  \<^verbatim>\<open>toCamelCase\<close>; it collects plain strings in \<^verbatim>\<open>words\<close>, and its pattern for dotted
  acronyms allows one more dot at the end. Its local \<^verbatim>\<open>pushWordChunk\<close> is never called.
\<close>

definition dot_dottedAcronymRegex :: rx where
  \<comment> \<open>\<^verbatim>\<open>/^(?:[A-Z]\.){2,}[A-Z]?\.?$/\<close>, of \<^verbatim>\<open>toDotCase\<close>\<close>
  "dot_dottedAcronymRegex =
     Cat (Cat (two_or_more (Cat (Chars is_upper_AZ) dot_char)) (optional (Chars is_upper_AZ)))
         (optional dot_char)"

definition dot_number :: "runtime \<Rightarrow> jsstring \<Rightarrow> jsstring list \<Rightarrow> jsstring list" where
  "dot_number U part words =
     (let n = parseInt10 U part;
          spelled = numberToWords U (JNum n)
      in foldl (\<lambda>words w. if w \<noteq> [] then words @ [toLowerCase U w] else words)
           words (split_runs is_space spelled))"

definition dot_text :: "runtime \<Rightarrow> jsstring \<Rightarrow> jsstring list \<Rightarrow> jsstring list" where
  "dot_text U part words =
     (let replaced = replace_each (\<lambda>c. c = 46) 32 part
      in foldl (\<lambda>words p.
                  if p = [] then words
                  else let onlyLetters = only_letters U p
                       in if onlyLetters \<noteq> [] then words @ [toLowerCase U onlyLetters]
                          else words)
           words (split_runs is_space replaced))"

definition dot_token :: "runtime \<Rightarrow> jsstring list \<Rightarrow> jsstring \<Rightarrow> jsstring list" where
  "dot_token U words token =
     (if rx_test acronymRegex token \<or> rx_test dot_dottedAcronymRegex token
      then words @ [remove_dots token]
      else
        (let parts = non_empty (split_keep is_digit token)
         in foldl (\<lambda>words part.
                     if rx_test digit_run part then dot_number U part words
                     else dot_text U part words)
              words parts))"

definition dot_words :: "runtime \<Rightarrow> jsstring list \<Rightarrow> jsstring list" where
  "dot_words U tokens = foldl (dot_token U) [] tokens"

definition dot_string :: "runtime \<Rightarrow> jsstring \<Rightarrow> jsstring" where
  "dot_string U input =
     (let trimmed = trim input
      in if length trimmed = 0 then err_empty
         else
           let tokens = rawTokens U trimmed
           in if length tokens = 0 then err_no_words
              else
                let words = dot_words U tokens
                in if length words = 0 then err_no_units
                   else join [46] words)"

fun toDotCase :: "runtime \<Rightarrow> jsval \<Rightarrow> jsstring" where
  "toDotCase U JNull = err_null"
| "toDotCase U JUndefined = err_null"
| "toDotCase U (JStr input) = dot_string U input"
| "toDotCase U v = err_not_string"


section \<open>basic\_prompt.js: toKebabCase\<close>

definition kebab_invalid :: jsstring where
  "kebab_invalid = js ''Input must be a valid string.''"

definition kebab_keep :: "code_unit \<Rightarrow> bool" where
  \<comment> \<open>\<^verbatim>\<open>[a-z0-9\s]\<close>\<close>
  "kebab_keep c = (is_lower_az c \<or> is_digit c \<or> is_space c)"

definition kebab_string :: "runtime \<Rightarrow> jsstring \<Rightarrow> jsstring" where
  \<comment> \<open>the body of \<^verbatim>\<open>toKebabCase\<close> after the validation of the input\<close>
  "kebab_string U input =
     (if input = [] then []
      else
        let result = trim input;
            result = toLowerCase U result;
            result = replace_each (\<lambda>c. \<not> kebab_keep c) 32 result;
            result = replace_runs is_space 45 result
        in result)"

fun toKebabCase :: "runtime \<Rightarrow> jsval \<Rightarrow> jsstring" where
  "toKebabCase U (JStr input) = kebab_string U input"
| "toKebabCase U v = kebab_invalid"

section \<open>Notions used in the statements\<close>

definition kebab_char :: "code_unit \<Rightarrow> bool" where
  \<comment> \<open>a character of a kebab-case result: \<^verbatim>\<open>[a-z0-9-]\<close>\<close>
  "kebab_char c = (is_lower_az c \<or> is_digit c \<or> c = 45)"

definition finite_non_negative :: "jsval \<Rightarrow> bool" where
  \<comment> \<open>the value is a finite number that is at least 0\<close>
  "finite_non_negative v = (case v of JNum (Finite q) \<Rightarrow> 0 \<le> q | _ \<Rightarrow> False)"

definition at_least_trillion :: "jsval \<Rightarrow> bool" where
  \<comment> \<open>the value is a finite number that is at least 1,000,000,000,000\<close>
  "at_least_trillion v = (case v of JNum (Finite q) \<Rightarrow> 1000000000000 \<le> q | _ \<Rightarrow> False)"

definition mk_word :: "jsstring \<Rightarrow> unit_rec" where
  \<comment> \<open>the unit \<^verbatim>\<open>{ type: 'word', text: w }\<close>\<close>
  "mk_word w = \<lparr>u_type = word, u_text = w\<rparr>"

definition number_fields :: "runtime \<Rightarrow> jsstring \<Rightarrow> jsstring list" where
  \<comment> \<open>the words of a spelled digit run, before they are lower-cased\<close>
  "number_fields U part =
     non_empty (split_runs is_space (numberToWords U (JNum (parseInt10 U part))))"

definition text_fields :: "runtime \<Rightarrow> jsstring \<Rightarrow> jsstring list" where
  \<comment> \<open>the letter-only pieces of a part that is not a digit run, before they are
     lower-cased\<close>
  "text_fields U part =
     non_empty (map (only_letters U)
       (non_empty (split_runs is_space (replace_each (\<lambda>c. c = 46) 32 part))))"

definition part_fields :: "runtime \<Rightarrow> jsstring \<Rightarrow> jsstring list" where
  \<comment> \<open>the pieces one part of a token contributes\<close>
  "part_fields U part =
     (if rx_test digit_run part then number_fields U part else text_fields U part)"

definition token_fields :: "runtime \<Rightarrow> jsstring \<Rightarrow> jsstring list" where
  \<comment> \<open>the pieces a token that is not an acronym contributes, in order\<close>
  "token_fields U token = concat (map (part_fields U) (non_empty (split_keep is_digit token)))"

fun split_on :: "code_unit \<Rightarrow> jsstring \<Rightarrow> jsstring list" where
  \<comment> \<open>splitting a result on a character, as \<^verbatim>\<open>out.split(".")\<close> does: the fields
     between its occurrences\<close>
  "split_on d [] = [[]]"
| "split_on d (x # xs) =
     (if x = d then [] # split_on d xs
      else (case split_on d xs of [] \<Rightarrow> [[x]] | f # fs \<Rightarrow> (x # f) # fs))"

definition capitalize :: "jsstring \<Rightarrow> jsstring" where
  \<comment> \<open>a word with its first letter in upper case\<close>
  "capitalize w = (case w of [] \<Rightarrow> [] | c # cs \<Rightarrow> ascii_upper c # cs)"

definition ascii_letter :: "code_unit \<Rightarrow> bool" where
  "ascii_letter c = (is_upper_AZ c \<or> is_lower_az c)"

definition ascii_whitespace :: "code_unit \<Rightarrow> bool" where
  "ascii_whitespace c = ((9 \<le> c \<and> c \<le> 13) \<or> c = 32)"

definition ascii_punctuation :: "code_unit \<Rightarrow> bool" where
  "ascii_punctuation c =
     ((33 \<le> c \<and> c \<le> 47) \<or> (58 \<le> c \<and> c \<le> 64) \<or> (91 \<le> c \<and> c \<le> 96) \<or> (123 \<le> c \<and> c \<le> 126))"

definition ascii_text_char :: "code_unit \<Rightarrow> bool" where
  \<comment> \<open>an ASCII letter, whitespace or punctuation character: no digit\<close>
  "ascii_text_char c = (ascii_letter c \<or> ascii_whitespace c \<or> ascii_punctuation c)"

definition no_acronym :: "jsstring \<Rightarrow> bool" where
  \<comment> \<open>the token matches none of the acronym patterns of the two functions\<close>
  "no_acronym t = (\<not> rx_test acronymRegex t \<and> \<not> rx_test dottedAcronymRegex t
     \<and> \<not> rx_test dot_dottedAcronymRegex t)"

definition lowercase_word :: "jsstring \<Rightarrow> bool" where
  \<comment> \<open>a non-empty word of lower-case ASCII letters\<close>
  "lowercase_word w = (w \<noteq> [] \<and> list_all is_lower_az w)"

section \<open>Evaluation\<close>

lemma floor_numeral_quotient:
  "\<lfloor>(numeral a :: rat) / numeral b\<rfloor> = numeral a div numeral b"
  using floor_divide_of_int_eq [of "numeral a" "numeral b", where ?'a = rat] by simp

lemmas char_class_defs = is_upper_AZ_def is_lower_az_def is_digit_def is_space_def is_ascii_def

lemmas string_eval = js_def trim_def toLowerCase_def toUpperCase_def ascii_lower_def
  ascii_upper_def non_empty_def join_parts_def char_class_defs

lemmas rx_eval = rx_test_def two_or_more_def one_or_more_def optional_def dot_char_def
  acronymRegex_def dottedAcronymRegex_def dot_dottedAcronymRegex_def digit_run_def

lemmas number_eval = number_to_string_def js_floor_def js_rem_def js_index_def MAX_limit_def
  belowTwenty_def tens_def scales_def underThousand_def scale_step_def parseInt10_def
  floor_numeral_quotient

lemmas pipeline_eval = err_null_def err_not_string_def err_empty_def err_no_words_def
  err_no_units_def cleaned_def rawTokens_def is_high_surrogate_def is_low_surrogate_def
  is_L_def is_N_def is_space_cp_def remove_dots_def only_letters_def pushWordChunk_def
  camel_number_def camel_text_def camel_token_def camel_units_def camel_piece_def
  camel_render_def camel_string_def dot_number_def dot_text_def dot_token_def dot_words_def
  dot_string_def

lemmas kebab_eval = kebab_invalid_def kebab_string_def kebab_keep_def string_eval

lemmas all_eval = string_eval rx_eval number_eval pipeline_eval

lemmas text_eval = ascii_text_char_def ascii_letter_def ascii_whitespace_def
  ascii_punctuation_def no_acronym_def lowercase_word_def capitalize_def

section \<open>The string operations\<close>

lemma nullable_lang: "nullable r \<longleftrightarrow> [] \<in> lang r"
  by (induction r) (auto simp: conc_def intro: star.star_empty)

lemma conc_Cons:
  "c # w \<in> conc A B \<longleftrightarrow>
     ([] \<in> A \<and> c # w \<in> B) \<or> (\<exists>u v. w = u @ v \<and> c # u \<in> A \<and> v \<in> B)"
  by (auto simp: conc_def Cons_eq_append_conv)

lemma star_Cons_split:
  assumes "x \<in> star A" and "x = c # w"
  shows "\<exists>u v. w = u @ v \<and> c # u \<in> A \<and> v \<in> star A"
  using assms
proof (induction arbitrary: w rule: star.induct)
  case star_empty
  then show ?case by simp
next
  case (star_more u v)
  show ?case
  proof (cases u)
    case Nil
    with star_more show ?thesis by simp
  next
    case (Cons d u')
    with star_more.prems have "d = c" and "w = u' @ v" by simp_all
    with Cons star_more.hyps(1,2) show ?thesis by blast
  qed
qed

lemma star_Cons:
  "c # w \<in> star A \<longleftrightarrow> (\<exists>u v. w = u @ v \<and> c # u \<in> A \<and> v \<in> star A)"
proof
  assume "c # w \<in> star A"
  then show "\<exists>u v. w = u @ v \<and> c # u \<in> A \<and> v \<in> star A"
    by (rule star_Cons_split) simp
next
  assume "\<exists>u v. w = u @ v \<and> c # u \<in> A \<and> v \<in> star A"
  then obtain u v where "w = u @ v" "c # u \<in> A" "v \<in> star A" by blast
  then show "c # w \<in> star A" using star.star_more [of "c # u" A v] by simp
qed

lemma deriv_lang: "w \<in> lang (deriv c r) \<longleftrightarrow> c # w \<in> lang r"
proof (induction r arbitrary: w)
  case (Cat r s)
  then show ?case by (auto simp: conc_Cons nullable_lang) (auto simp: conc_def)
next
  case (Star r)
  then show ?case by (auto simp: star_Cons conc_def)
qed auto

lemma rx_test_lang: "rx_test r s \<longleftrightarrow> s \<in> lang r"
  unfolding rx_test_def
  by (induction s arbitrary: r) (simp_all add: nullable_lang deriv_lang)

lemma split_keep_head:
  "xs \<noteq> [] \<Longrightarrow> P (hd xs) \<Longrightarrow> \<exists>d rest. split_keep P xs = [] # d # rest"
proof (induction xs)
  case Nil
  then show ?case by simp
next
  case (Cons x xs)
  then have "P x" by simp
  show ?case
  proof (cases "xs \<noteq> [] \<and> P (hd xs)")
    case True
    with Cons.IH obtain d rest where "split_keep P xs = [] # d # rest" by blast
    with True \<open>P x\<close> show ?thesis by simp
  next
    case False
    with \<open>P x\<close> show ?thesis by auto
  qed
qed

lemma split_keep_concat: "concat (split_keep P xs) = xs"
proof (induction xs)
  case Nil
  show ?case by simp
next
  case (Cons x xs)
  show ?case
  proof (cases "P x")
    case True
    show ?thesis
    proof (cases "xs \<noteq> [] \<and> P (hd xs)")
      case True
      then obtain d rest where "split_keep P xs = [] # d # rest"
        using split_keep_head [of xs P] by blast
      with True \<open>P x\<close> Cons show ?thesis by auto
    next
      case False
      with \<open>P x\<close> Cons show ?thesis by auto
    qed
  next
    case False
    with Cons show ?thesis by (auto split: list.splits)
  qed
qed

lemma split_examples:
  "split_runs is_space (js ''a  b'') = [js ''a'', js ''b'']"
  "split_runs is_space (js '' a '') = [[], js ''a'', []]"
  "split_runs is_space [] = [[]]"
  "split_keep is_digit (js ''room23a'') = [js ''room'', js ''23'', js ''a'']"
  "split_keep is_digit (js ''23'') = [[], js ''23'', []]"
  "replace_runs is_space 45 (js ''a   b '') = js ''a-b-''"
  "code_points [97, 55357, 56832, 55357] = [[97], [55357, 56832], [55357]]"
  by (simp_all add: string_eval is_high_surrogate_def is_low_surrogate_def)

lemma pattern_examples:
  "rx_test acronymRegex (js ''OECD'')"
  "rx_test acronymRegex (js ''NATO.GOV'')"
  "\<not> rx_test acronymRegex (js ''A.BC'')"
  "\<not> rx_test acronymRegex (js ''Oecd'')"
  "rx_test dottedAcronymRegex (js ''U.S.A.'')"
  "rx_test dottedAcronymRegex (js ''U.S.A'')"
  "rx_test dottedAcronymRegex (js ''U.S.'')"
  "\<not> rx_test dottedAcronymRegex (js ''U.'')"
  "rx_test digit_run (js ''2024'')"
  "\<not> rx_test digit_run []"
  by (simp_all add: string_eval rx_eval)

section \<open>toCamelCase on the examples of its documentation\<close>

text \<open>
  C1. The comment above \<^verbatim>\<open>toCamelCase\<close> gives three examples. The first and the third
  evaluate to the documented results. On the second, \<^verbatim>\<open>"The 23 street is far fr$om &here"\<close>,
  the dollar sign is replaced by a space like all punctuation, so \<^verbatim>\<open>fr\<close> and \<^verbatim>\<open>om\<close>
  are two tokens and the result is \<^verbatim>\<open>theTwentyThreeStreetIsFarFrOmHere\<close>, not the
  documented \<^verbatim>\<open>theTwentyThreeStreetIsFarFromHere\<close>.
\<close>

theorem toCamelCase_documented_examples:
  "toCamelCase U (JStr (js ''I like to play videogame'')) = js ''iLikeToPlayVideogame''
   \<and> toCamelCase U (JStr (js ''The 23 street is far fr$om &here''))
       = js ''theTwentyThreeStreetIsFarFrOmHere''
   \<and> toCamelCase U (JStr (js ''The 23 street is far fr$om &here''))
       \<noteq> js ''theTwentyThreeStreetIsFarFromHere''
   \<and> toCamelCase U
         (JStr (js ''OECD is an international organization of 38 member countries''))
       = js ''OECDIsAnInternationalOrganizationOfThirtyEightMemberCountries''"
  by (simp add: all_eval)

section \<open>numberToWords\<close>

lemma numberToWords_fallback:
  "\<not> finite_non_negative v \<or> at_least_trillion v \<Longrightarrow> numberToWords U v = js_String U v"
proof (cases v)
  case (JNum x)
  assume a: "\<not> finite_non_negative v \<or> at_least_trillion v"
  show ?thesis
  proof (cases x)
    case (Finite q)
    with a JNum show ?thesis
      by (auto simp: finite_non_negative_def at_least_trillion_def MAX_limit_def)
  qed (simp_all add: JNum)
qed simp_all

text \<open>
  C3. \<^verbatim>\<open>numberToWords\<close> spells 0, 23, 100 and 1000 as \<^verbatim>\<open>zero\<close>, \<^verbatim>\<open>twenty three\<close>,
  \<^verbatim>\<open>one hundred\<close> and \<^verbatim>\<open>one thousand\<close>; on every input that is not a finite number
  at least 0, or that is at least 1,000,000,000,000, it returns \<^verbatim>\<open>String(num)\<close>, which for
  1000000000000 is \<^verbatim>\<open>1000000000000\<close>.
\<close>

theorem numberToWords_contract:
  "numberToWords U (JNum (Finite 0)) = js ''zero''
   \<and> numberToWords U (JNum (Finite 23)) = js ''twenty three''
   \<and> numberToWords U (JNum (Finite 100)) = js ''one hundred''
   \<and> numberToWords U (JNum (Finite 1000)) = js ''one thousand''
   \<and> numberToWords U (JNum (Finite 1000000000000)) = js ''1000000000000''
   \<and> (\<not> finite_non_negative v \<or> at_least_trillion v \<longrightarrow> numberToWords U v = js_String U v)"
proof -
  have "numberToWords U (JNum (Finite 1000000000000)) = js ''1000000000000''"
    by (simp add: string_eval number_eval decimal.simps)
  moreover have "numberToWords U (JNum (Finite 23)) = js ''twenty three''"
    by (simp add: string_eval number_eval)
  moreover have "numberToWords U (JNum (Finite 100)) = js ''one hundred''"
    by (simp add: string_eval number_eval)
  moreover have "numberToWords U (JNum (Finite 1000)) = js ''one thousand''"
    by (simp add: string_eval number_eval)
  moreover have "numberToWords U (JNum (Finite 0)) = js ''zero''"
    by (simp add: MAX_limit_def)
  ultimately show ?thesis using numberToWords_fallback [of v U] by blast
qed

theorem numberToWords_contract_witness:
  "\<not> finite_non_negative (JNum (Finite (- 5)))
   \<and> numberToWords ascii_runtime (JNum (Finite (- 5))) = js ''-5''
   \<and> js_String ascii_runtime (JNum (Finite (- 5))) = js ''-5''
   \<and> numberToWords ascii_runtime (JNum (Finite 1000000000000)) = js ''1000000000000''"
  using numberToWords_contract [of ascii_runtime "JNum (Finite (- 5))"]
  by (simp add: finite_non_negative_def string_eval number_eval decimal.simps)

section \<open>The two patterns for dotted acronyms\<close>

text \<open>
  C9. The pattern of \<^verbatim>\<open>toDotCase\<close> for dotted acronyms allows a dot after the optional
  last letter, the pattern of \<^verbatim>\<open>toCamelCase\<close> does not. On the token \<^verbatim>\<open>U.S..\<close> the
  two functions differ: \<^verbatim>\<open>toDotCase\<close> keeps it as the one unit \<^verbatim>\<open>US\<close>,
  \<^verbatim>\<open>toCamelCase\<close> takes it apart into the words \<^verbatim>\<open>u\<close> and \<^verbatim>\<open>s\<close> and returns
  \<^verbatim>\<open>uS\<close>.
\<close>

theorem dotted_acronym_patterns_differ:
  "toDotCase U (JStr (js ''U.S..'')) = js ''US''
   \<and> toCamelCase U (JStr (js ''U.S..'')) = js ''uS''
   \<and> rx_test dot_dottedAcronymRegex (js ''U.S..'')
   \<and> \<not> rx_test dottedAcronymRegex (js ''U.S..'')
   \<and> \<not> rx_test acronymRegex (js ''U.S..'')
   \<and> dot_words U [js ''U.S..''] = [js ''US'']
   \<and> camel_units U [js ''U.S..'']
       = [\<lparr>u_type = word, u_text = js ''u''\<rparr>, \<lparr>u_type = word, u_text = js ''s''\<rparr>]"
  by (simp add: all_eval)

section \<open>toKebabCase\<close>

text \<open>
  C6. \<^verbatim>\<open>toKebabCase\<close> turns \<^verbatim>\<open>Hello World\<close> into \<^verbatim>\<open>hello-world\<close> and
  \<^verbatim>\<open>Another___Test\<close> into \<^verbatim>\<open>another-test\<close>; for \<^verbatim>\<open>null\<close>, \<^verbatim>\<open>undefined\<close> and
  every other value that is not a string it returns \<^verbatim>\<open>Input must be a valid string.\<close>; for
  the empty string it returns the empty string.
\<close>

theorem toKebabCase_contract:
  "toKebabCase U (JStr (js ''Hello World'')) = js ''hello-world''
   \<and> toKebabCase U (JStr (js ''Another___Test'')) = js ''another-test''
   \<and> toKebabCase U JNull = js ''Input must be a valid string.''
   \<and> toKebabCase U JUndefined = js ''Input must be a valid string.''
   \<and> toKebabCase U (JBool b) = js ''Input must be a valid string.''
   \<and> toKebabCase U (JNum x) = js ''Input must be a valid string.''
   \<and> toKebabCase U (JOther t) = js ''Input must be a valid string.''
   \<and> toKebabCase U (JStr []) = []"
  by (simp add: kebab_eval)

lemma replace_runs_last:
  "xs \<noteq> [] \<Longrightarrow> P (last xs) \<Longrightarrow> replace_runs P r xs \<noteq> [] \<and> last (replace_runs P r xs) = r"
  by (induction xs) (auto split: if_splits)

lemma replace_each_last:
  "xs \<noteq> [] \<Longrightarrow> replace_each P r xs \<noteq> [] \<and>
     last (replace_each P r xs) = (if P (last xs) then r else last xs)"
  by (induction xs) auto

lemma replace_each_keep: "list_all kebab_keep (replace_each (\<lambda>c. \<not> kebab_keep c) 32 xs)"
  by (induction xs) (auto simp: kebab_keep_def is_space_def)

lemma kebab_char_props:
  "kebab_char c \<Longrightarrow> \<not> is_space c \<and> is_ascii c \<and> ascii_lower c = c"
  by (auto simp: kebab_char_def ascii_lower_def char_class_defs)

lemma replace_runs_kebab_char:
  "list_all kebab_keep xs \<Longrightarrow> list_all kebab_char (replace_runs is_space 45 xs)"
  by (induction xs) (auto simp: kebab_keep_def kebab_char_def)

lemma replace_runs_fixed:
  "list_all kebab_keep xs \<Longrightarrow>
   replace_runs is_space 45 (replace_each (\<lambda>c. \<not> kebab_keep c) 32 (replace_runs is_space 45 xs))
     = replace_runs is_space 45 xs"
proof (induction xs)
  case Nil
  then show ?case by simp
next
  case (Cons x xs)
  have keep45: "\<not> kebab_keep 45" by (simp add: kebab_keep_def char_class_defs)
  have sp32: "is_space 32" by (simp add: is_space_def)
  show ?case
  proof (cases "is_space x")
    case True
    show ?thesis
    proof (cases "xs \<noteq> [] \<and> is_space (hd xs)")
      case True
      with \<open>is_space x\<close> Cons show ?thesis by simp
    next
      case False
      let ?o = "replace_runs is_space 45 xs"
      let ?r = "replace_each (\<lambda>c. \<not> kebab_keep c) 32 ?o"
      have nosp: "\<not> (?r \<noteq> [] \<and> is_space (hd ?r))"
      proof (cases xs)
        case Nil
        then show ?thesis by simp
      next
        case (Cons y ys)
        with False have ny: "\<not> is_space y" by simp
        from Cons \<open>list_all kebab_keep (x # xs)\<close> have ky: "kebab_keep y" by simp
        from Cons ny have "?o = y # replace_runs is_space 45 ys" by simp
        with ky ny show ?thesis by simp
      qed
      from Cons have IH: "replace_runs is_space 45 ?r = ?o" by simp
      from False \<open>is_space x\<close> have "replace_runs is_space 45 (x # xs) = 45 # ?o" by auto
      moreover have "replace_runs is_space 45 (replace_each (\<lambda>c. \<not> kebab_keep c) 32 (45 # ?o))
          = 45 # replace_runs is_space 45 ?r"
        using nosp keep45 sp32 by auto
      ultimately show ?thesis using IH by simp
    qed
  next
    case False
    with Cons show ?thesis by simp
  qed
qed

lemma trim_no_space: "list_all (\<lambda>c. \<not> is_space c) xs \<Longrightarrow> trim xs = xs"
proof -
  assume a: "list_all (\<lambda>c. \<not> is_space c) xs"
  then have "dropWhile is_space xs = xs" by (cases xs) auto
  moreover from a have "list_all (\<lambda>c. \<not> is_space c) (rev xs)" by (simp add: list_all_iff)
  then have "dropWhile is_space (rev xs) = rev xs" by (cases "rev xs") auto
  ultimately show ?thesis by (simp add: trim_def)
qed

lemma kebab_char_fixed:
  assumes "list_all kebab_char ys"
  shows "trim ys = ys" and "toLowerCase U ys = ys"
proof -
  from assms have "list_all (\<lambda>c. \<not> is_space c) ys"
    by (induction ys) (auto dest: kebab_char_props)
  then show "trim ys = ys" by (rule trim_no_space)
  from assms have "list_all is_ascii ys" by (induction ys) (auto dest: kebab_char_props)
  moreover from assms have "map ascii_lower ys = ys" by (induction ys) (auto dest: kebab_char_props)
  ultimately show "toLowerCase U ys = ys" by (simp add: toLowerCase_def)
qed

text \<open>
  C8. \<^verbatim>\<open>toKebabCase\<close> is idempotent on strings: its result consists of lower-case
  letters, digits and single hyphens, and applying the function again returns it unchanged.
\<close>

theorem toKebabCase_idempotent:
  "toKebabCase U (JStr (toKebabCase U (JStr s))) = toKebabCase U (JStr s)
   \<and> list_all kebab_char (toKebabCase U (JStr s))"
proof (cases "s = []")
  case True
  then show ?thesis by (simp add: kebab_string_def)
next
  case False
  define xs where "xs = replace_each (\<lambda>c. \<not> kebab_keep c) 32 (toLowerCase U (trim s))"
  define ys where "ys = replace_runs is_space 45 xs"
  have k: "list_all kebab_keep xs" unfolding xs_def by (rule replace_each_keep)
  from False have out: "kebab_string U s = ys" by (simp add: kebab_string_def xs_def ys_def)
  have kc: "list_all kebab_char ys" unfolding ys_def using k by (rule replace_runs_kebab_char)
  have "kebab_string U ys = ys"
  proof (cases "ys = []")
    case True
    then show ?thesis by (simp add: kebab_string_def)
  next
    case False
    then have "kebab_string U ys
        = replace_runs is_space 45 (replace_each (\<lambda>c. \<not> kebab_keep c) 32 ys)"
      using kebab_char_fixed(1) [OF kc] kebab_char_fixed(2) [OF kc, of U]
      by (simp add: kebab_string_def)
    also have "\<dots> = ys" unfolding ys_def using k by (rule replace_runs_fixed)
    finally show ?thesis .
  qed
  with out kc show ?thesis by simp
qed

lemma trailing_hyphen:
  assumes "toLowerCase U (trim s) \<noteq> []"
    and "\<not> kebab_keep (last (toLowerCase U (trim s)))"
  shows "toKebabCase U (JStr s) \<noteq> [] \<and> last (toKebabCase U (JStr s)) = 45"
proof -
  have "s \<noteq> []"
  proof
    assume "s = []"
    then have "toLowerCase U (trim s) = []" by (simp add: trim_def toLowerCase_def)
    with assms(1) show False by simp
  qed
  let ?l = "toLowerCase U (trim s)"
  let ?xs = "replace_each (\<lambda>c. \<not> kebab_keep c) 32 ?l"
  from replace_each_last [OF assms(1), of "\<lambda>c. \<not> kebab_keep c" 32] assms(2)
  have "?xs \<noteq> []" and "last ?xs = 32" by simp_all
  then have "?xs \<noteq> []" and "is_space (last ?xs)" by (simp_all add: is_space_def)
  then have "replace_runs is_space 45 ?xs \<noteq> [] \<and> last (replace_runs is_space 45 ?xs) = 45"
    by (rule replace_runs_last)
  with \<open>s \<noteq> []\<close> show ?thesis by (simp add: kebab_string_def)
qed

text \<open>
  C10. When the trimmed and lower-cased input ends in a character that is neither a
  lower-case ASCII letter, a digit nor whitespace, the result of \<^verbatim>\<open>toKebabCase\<close> ends in
  a hyphen: the character becomes a space, and the whitespace run at the end becomes
  \<^verbatim>\<open>-\<close>. So \<^verbatim>\<open>toKebabCase("Hello!")\<close> is \<^verbatim>\<open>hello-\<close>.
\<close>

theorem toKebabCase_trailing_hyphen:
  "(toLowerCase U (trim s) \<noteq> [] \<and> \<not> kebab_keep (last (toLowerCase U (trim s)))
      \<longrightarrow> toKebabCase U (JStr s) \<noteq> [] \<and> last (toKebabCase U (JStr s)) = 45)
   \<and> toKebabCase U (JStr (js ''Hello!'')) = js ''hello-''"
proof -
  have "toKebabCase U (JStr (js ''Hello!'')) = js ''hello-''"
    by (simp add: kebab_eval)
  then show ?thesis using trailing_hyphen [of U s] by blast
qed

theorem toKebabCase_trailing_hyphen_witness:
  "toLowerCase ascii_runtime (trim (js ''  Done?  '')) = js ''done?''
   \<and> \<not> kebab_keep (last (js ''done?''))
   \<and> toKebabCase ascii_runtime (JStr (js ''  Done?  '')) = js ''done-''
   \<and> last (js ''done-'') = 45"
  using toKebabCase_trailing_hyphen [of ascii_runtime "js ''  Done?  ''"]
  by (simp add: kebab_eval)

section \<open>The units of a token\<close>

lemma foldl_push:
  "foldl (\<lambda>acc x. if c x then acc @ [f x] else acc) a xs = a @ map f (filter c xs)"
  by (induction xs arbitrary: a) auto

lemma foldl_append_each:
  "foldl (\<lambda>acc x. acc @ g x) a xs = a @ concat (map g xs)"
  by (induction xs arbitrary: a) auto

lemma code_points_dot:
  "cp \<in> set (code_points p) \<Longrightarrow> 46 \<in> set cp \<Longrightarrow> cp = [46]"
  by (induction p arbitrary: cp rule: code_points.induct)
     (auto simp: is_high_surrogate_def is_low_surrogate_def split: if_splits)

lemma only_letters_no_dot: "remove_dots (only_letters U p) = only_letters U p"
proof -
  have "46 \<notin> set (only_letters U p)"
  proof
    assume "46 \<in> set (only_letters U p)"
    then obtain cp where cp: "cp \<in> set (code_points p)" "is_L U cp" "46 \<in> set cp"
      by (auto simp: only_letters_def)
    then have "cp = [46]" by (auto dest: code_points_dot)
    with cp(2) show False by (simp add: is_L_def char_class_defs)
  qed
  then show ?thesis by (auto simp: remove_dots_def filter_id_conv)
qed

lemma non_empty_map:
  "non_empty (map h (non_empty xs)) = map h (filter (\<lambda>p. p \<noteq> [] \<and> h p \<noteq> []) xs)"
  by (induction xs) (auto simp: non_empty_def)

lemma camel_number_eq:
  "camel_number U part units = units @ map mk_word (map (toLowerCase U) (number_fields U part))"
  by (simp add: camel_number_def number_fields_def non_empty_def mk_word_def foldl_push
      o_def Let_def)

lemma dot_number_eq:
  "dot_number U part ws = ws @ map (toLowerCase U) (number_fields U part)"
  by (simp add: dot_number_def number_fields_def non_empty_def foldl_push Let_def)

lemma camel_text_eq:
  "camel_text U part units = units @ map mk_word (map (toLowerCase U) (text_fields U part))"
proof -
  have step: "(\<lambda>units p. if p = [] then units
                  else if only_letters U p \<noteq> [] then pushWordChunk U (only_letters U p) units
                       else units)
     = (\<lambda>units p. if p \<noteq> [] \<and> only_letters U p \<noteq> []
                   then units @ [mk_word (toLowerCase U (only_letters U p))] else units)"
    by (intro ext) (simp add: pushWordChunk_def only_letters_no_dot mk_word_def Let_def)
  show ?thesis
    unfolding camel_text_def text_fields_def Let_def step
    by (simp add: foldl_push non_empty_map o_def)
qed

lemma dot_text_eq:
  "dot_text U part ws = ws @ map (toLowerCase U) (text_fields U part)"
proof -
  have step: "(\<lambda>words p. if p = [] then words
                  else if only_letters U p \<noteq> [] then words @ [toLowerCase U (only_letters U p)]
                       else words)
     = (\<lambda>words p. if p \<noteq> [] \<and> only_letters U p \<noteq> []
                   then words @ [toLowerCase U (only_letters U p)] else words)"
    by (intro ext) simp
  show ?thesis
    unfolding dot_text_def text_fields_def Let_def step
    by (simp add: foldl_push non_empty_map o_def)
qed

lemma camel_parts_eq:
  "foldl (\<lambda>units part. if rx_test digit_run part then camel_number U part units
                         else camel_text U part units) units parts
   = units @ map mk_word (map (toLowerCase U) (concat (map (part_fields U) parts)))"
  by (induction parts arbitrary: units)
     (simp_all add: camel_number_eq camel_text_eq part_fields_def)

lemma dot_parts_eq:
  "foldl (\<lambda>ws part. if rx_test digit_run part then dot_number U part ws
                      else dot_text U part ws) ws parts
   = ws @ map (toLowerCase U) (concat (map (part_fields U) parts))"
  by (induction parts arbitrary: ws)
     (simp_all add: dot_number_eq dot_text_eq part_fields_def)

lemma camel_token_eq:
  "camel_token U units token =
     (if rx_test acronymRegex token \<or> rx_test dottedAcronymRegex token
      then units @ [\<lparr>u_type = acronym, u_text = remove_dots token\<rparr>]
      else units @ map mk_word (map (toLowerCase U) (token_fields U token)))"
  by (simp add: camel_token_def camel_parts_eq token_fields_def Let_def)

lemma dot_token_eq:
  "dot_token U ws token =
     (if rx_test acronymRegex token \<or> rx_test dot_dottedAcronymRegex token
      then ws @ [remove_dots token]
      else ws @ map (toLowerCase U) (token_fields U token))"
  by (simp add: dot_token_def dot_parts_eq token_fields_def Let_def)

lemma camel_token_append: "camel_token U units token = units @ camel_token U [] token"
  by (simp add: camel_token_eq)

lemma dot_token_append: "dot_token U ws token = ws @ dot_token U [] token"
  by (simp add: dot_token_eq)

lemma camel_units_concat: "camel_units U tokens = concat (map (camel_token U []) tokens)"
proof -
  have "foldl (camel_token U) units tokens = units @ concat (map (camel_token U []) tokens)"
    for units
  proof (induction tokens arbitrary: units)
    case Nil
    show ?case by simp
  next
    case (Cons t ts)
    show ?case by (simp add: Cons camel_token_append [of U units t])
  qed
  then show ?thesis by (simp add: camel_units_def)
qed

lemma dot_words_concat: "dot_words U tokens = concat (map (dot_token U []) tokens)"
proof -
  have "foldl (dot_token U) ws tokens = ws @ concat (map (dot_token U []) tokens)" for ws
  proof (induction tokens arbitrary: ws)
    case Nil
    show ?case by simp
  next
    case (Cons t ts)
    show ?case by (simp add: Cons dot_token_append [of U ws t])
  qed
  then show ?thesis by (simp add: dot_words_def)
qed

lemma map_pieces_later:
  "length is = length us \<Longrightarrow> \<forall>i \<in> set is. 0 < i \<Longrightarrow>
   map (\<lambda>(i, u). camel_piece U i u) (zip is us) = map (camel_piece U (Suc 0)) us"
proof (induction "is" us rule: list_induct2)
  case Nil
  show ?case by simp
next
  case (Cons i "is" u us)
  then show ?case by (simp add: camel_piece_def)
qed

lemma camel_render_Nil: "camel_render U [] = []"
  by (simp add: camel_render_def)

lemma camel_render_Cons:
  "camel_render U (u # us) = camel_piece U 0 u @ concat (map (camel_piece U (Suc 0)) us)"
proof -
  have "[0..<Suc (length us)] = 0 # [Suc 0..<Suc (length us)]"
    by (rule upt_conv_Cons) simp
  then have z: "zip [0..<length (u # us)] (u # us) = (0, u) # zip [Suc 0..<Suc (length us)] us"
    by (simp del: upt_Suc)
  have "foldl (\<lambda>result (i, u). result @ camel_piece U i u) [] (zip [0..<length (u # us)] (u # us))
      = concat (map (\<lambda>(i, u). camel_piece U i u) (zip [0..<length (u # us)] (u # us)))"
    using foldl_append_each [of "\<lambda>(i, u). camel_piece U i u" "[]"]
    by (simp add: case_prod_unfold)
  also have "\<dots> = camel_piece U 0 u
      @ concat (map (\<lambda>(i, u). camel_piece U i u) (zip [Suc 0..<Suc (length us)] us))"
    unfolding z by simp
  also have "map (\<lambda>(i, u). camel_piece U i u) (zip [Suc 0..<Suc (length us)] us)
      = map (camel_piece U (Suc 0)) us"
    by (rule map_pieces_later) (simp_all del: upt_Suc)
  finally show ?thesis by (simp add: camel_render_def del: upt_Suc)
qed

lemma camel_piece_acronym: "u_type u = acronym \<Longrightarrow> camel_piece U i u = u_text u"
  by (simp add: camel_piece_def)

lemma camel_render_acronym:
  "camel_render U (us @ \<lparr>u_type = acronym, u_text = a\<rparr> # vs)
     = camel_render U us @ a @ concat (map (camel_piece U (Suc 0)) vs)"
  by (cases us) (simp_all add: camel_render_Nil camel_render_Cons camel_piece_acronym)

lemma rawTokens_Nil: "rawTokens U [] = []"
  by (simp add: rawTokens_def cleaned_def non_empty_def)

lemma camel_string_cases:
  "camel_string U s =
     (if trim s = [] then err_empty
      else if rawTokens U (trim s) = [] then err_no_words
      else if camel_units U (rawTokens U (trim s)) = [] then err_no_units
      else camel_render U (camel_units U (rawTokens U (trim s))))"
  by (simp add: camel_string_def Let_def)

lemma dot_string_cases:
  "dot_string U s =
     (if trim s = [] then err_empty
      else if rawTokens U (trim s) = [] then err_no_words
      else if dot_words U (rawTokens U (trim s)) = [] then err_no_units
      else join [46] (dot_words U (rawTokens U (trim s))))"
  by (simp add: dot_string_def Let_def)

section \<open>Error messages of toCamelCase and toDotCase\<close>

text \<open>
  C2. \<^verbatim>\<open>toCamelCase\<close> and \<^verbatim>\<open>toDotCase\<close> report an error by returning a message, in
  this order: \<^verbatim>\<open>null\<close> or \<^verbatim>\<open>undefined\<close>; a value that is not a string; a string
  whose trimmed form is empty; a trimmed string that is not empty and gives no token; tokens
  that give no word unit.
\<close>

theorem error_messages_in_order:
  "toCamelCase U JNull
     = js ''Invalid input: value is null or undefined; expected a non-empty string.''
   \<and> toCamelCase U JUndefined
     = js ''Invalid input: value is null or undefined; expected a non-empty string.''
   \<and> toDotCase U JNull
     = js ''Invalid input: value is null or undefined; expected a non-empty string.''
   \<and> toDotCase U JUndefined
     = js ''Invalid input: value is null or undefined; expected a non-empty string.''
   \<and> toCamelCase U (JBool b) = js ''Invalid input: expected a string.''
   \<and> toCamelCase U (JNum x) = js ''Invalid input: expected a string.''
   \<and> toCamelCase U (JOther t) = js ''Invalid input: expected a string.''
   \<and> toDotCase U (JBool b) = js ''Invalid input: expected a string.''
   \<and> toDotCase U (JNum x) = js ''Invalid input: expected a string.''
   \<and> toDotCase U (JOther t) = js ''Invalid input: expected a string.''
   \<and> (trim s1 = [] \<longrightarrow>
        toCamelCase U (JStr s1) = js ''Invalid input: empty or whitespace-only string.''
        \<and> toDotCase U (JStr s1) = js ''Invalid input: empty or whitespace-only string.'')
   \<and> (trim s2 \<noteq> [] \<and> rawTokens U (trim s2) = [] \<longrightarrow>
        toCamelCase U (JStr s2) = js ''Invalid input: no usable words found after cleaning.''
        \<and> toDotCase U (JStr s2) = js ''Invalid input: no usable words found after cleaning.'')
   \<and> (rawTokens U (trim s3) \<noteq> [] \<and> camel_units U (rawTokens U (trim s3)) = [] \<longrightarrow>
        toCamelCase U (JStr s3)
          = js ''Invalid input: no word tokens produced after processing.'')
   \<and> (rawTokens U (trim s4) \<noteq> [] \<and> dot_words U (rawTokens U (trim s4)) = [] \<longrightarrow>
        toDotCase U (JStr s4) = js ''Invalid input: no word tokens produced after processing.'')"
proof -
  have tok: "rawTokens U (trim s) \<noteq> [] \<Longrightarrow> trim s \<noteq> []" for s
    using rawTokens_Nil [of U] by auto
  have "rawTokens U (trim s3) \<noteq> [] \<and> camel_units U (rawTokens U (trim s3)) = [] \<longrightarrow>
        toCamelCase U (JStr s3) = err_no_units"
    using tok [of s3] by (simp add: camel_string_cases)
  moreover have "rawTokens U (trim s4) \<noteq> [] \<and> dot_words U (rawTokens U (trim s4)) = [] \<longrightarrow>
        toDotCase U (JStr s4) = err_no_units"
    using tok [of s4] by (simp add: dot_string_cases)
  moreover have "trim s2 \<noteq> [] \<and> rawTokens U (trim s2) = [] \<longrightarrow>
        toCamelCase U (JStr s2) = err_no_words \<and> toDotCase U (JStr s2) = err_no_words"
    by (simp add: camel_string_cases dot_string_cases)
  moreover have "trim s1 = [] \<longrightarrow>
        toCamelCase U (JStr s1) = err_empty \<and> toDotCase U (JStr s1) = err_empty"
    by (simp add: camel_string_cases dot_string_cases)
  ultimately show ?thesis
    by (simp add: err_null_def err_not_string_def err_empty_def err_no_words_def
        err_no_units_def)
qed

theorem error_messages_in_order_witness:
  "trim (js ''   '') = []
   \<and> toCamelCase ascii_runtime (JStr (js ''   ''))
       = js ''Invalid input: empty or whitespace-only string.''
   \<and> toDotCase ascii_runtime (JStr (js ''   ''))
       = js ''Invalid input: empty or whitespace-only string.''
   \<and> trim (js '' $$$ '') = js ''$$$''
   \<and> rawTokens ascii_runtime (trim (js '' $$$ '')) = []
   \<and> toCamelCase ascii_runtime (JStr (js '' $$$ ''))
       = js ''Invalid input: no usable words found after cleaning.''
   \<and> toDotCase ascii_runtime (JStr (js '' $$$ ''))
       = js ''Invalid input: no usable words found after cleaning.''
   \<and> rawTokens ascii_runtime (trim (js ''...'')) = [js ''...'']
   \<and> camel_units ascii_runtime [js ''...''] = []
   \<and> dot_words ascii_runtime [js ''...''] = []
   \<and> toCamelCase ascii_runtime (JStr (js ''...''))
       = js ''Invalid input: no word tokens produced after processing.''
   \<and> toDotCase ascii_runtime (JStr (js ''...''))
       = js ''Invalid input: no word tokens produced after processing.''"
  using error_messages_in_order [where U = ascii_runtime and ?s1.0 = "js ''   ''"
      and ?s2.0 = "js '' $$$ ''" and ?s3.0 = "js ''...''" and ?s4.0 = "js ''...''"]
  by (simp add: all_eval)

section \<open>toDotCase\<close>

text \<open>
  C5. \<^verbatim>\<open>toDotCase\<close> joins the units it produced with \<^verbatim>\<open>.\<close>; the units are those of
  the tokens in order; a token of acronym shape gives one unit, the token without its dots
  in its own case, and every unit of another token is the lower-casing of a piece of it.
  So \<^verbatim>\<open>user_id\<close> gives \<^verbatim>\<open>user.id\<close>, and \<^verbatim>\<open>SCREEN_NAME\<close>, whose tokens
  \<^verbatim>\<open>SCREEN\<close> and \<^verbatim>\<open>NAME\<close> are both of acronym shape, gives \<^verbatim>\<open>SCREEN.NAME\<close>.
\<close>

theorem toDotCase_joins_units:
  "(dot_words U (rawTokens U (trim s)) \<noteq> [] \<longrightarrow>
      toDotCase U (JStr s) = join [46] (dot_words U (rawTokens U (trim s))))
   \<and> dot_words U tokens = concat (map (dot_token U []) tokens)
   \<and> (rx_test acronymRegex t \<or> rx_test dot_dottedAcronymRegex t \<longrightarrow>
        dot_token U [] t = [remove_dots t])
   \<and> (\<not> (rx_test acronymRegex w \<or> rx_test dot_dottedAcronymRegex w) \<longrightarrow>
        dot_token U [] w = map (toLowerCase U) (token_fields U w))
   \<and> toDotCase U (JStr (js ''user_id'')) = js ''user.id''
   \<and> toDotCase U (JStr (js ''SCREEN_NAME'')) = js ''SCREEN.NAME''
   \<and> rawTokens U (trim (js ''SCREEN_NAME'')) = [js ''SCREEN'', js ''NAME'']
   \<and> rx_test acronymRegex (js ''SCREEN'') \<and> rx_test acronymRegex (js ''NAME'')"
proof -
  have "dot_words U (rawTokens U (trim s)) \<noteq> [] \<longrightarrow>
      toDotCase U (JStr s) = join [46] (dot_words U (rawTokens U (trim s)))"
  proof
    assume a: "dot_words U (rawTokens U (trim s)) \<noteq> []"
    then have "rawTokens U (trim s) \<noteq> []" by (auto simp: dot_words_def)
    moreover from this have "trim s \<noteq> []" using rawTokens_Nil [of U] by auto
    ultimately show "toDotCase U (JStr s) = join [46] (dot_words U (rawTokens U (trim s)))"
      using a by (simp add: dot_string_cases)
  qed
  moreover have "toDotCase U (JStr (js ''user_id'')) = js ''user.id''"
    by (simp add: all_eval)
  moreover have "toDotCase U (JStr (js ''SCREEN_NAME'')) = js ''SCREEN.NAME''"
    by (simp add: all_eval)
  moreover have "rawTokens U (trim (js ''SCREEN_NAME'')) = [js ''SCREEN'', js ''NAME'']"
    by (simp add: all_eval)
  moreover have "rx_test acronymRegex (js ''SCREEN'') \<and> rx_test acronymRegex (js ''NAME'')"
    by (simp add: all_eval)
  ultimately show ?thesis
    by (simp add: dot_words_concat dot_token_eq)
qed

theorem toDotCase_joins_units_witness:
  "dot_words ascii_runtime (rawTokens ascii_runtime (trim (js ''the U.S.A. team'')))
     = [js ''the'', js ''USA'', js ''team'']
   \<and> toDotCase ascii_runtime (JStr (js ''the U.S.A. team'')) = js ''the.USA.team''
   \<and> rx_test dot_dottedAcronymRegex (js ''U.S.A.'')
   \<and> dot_token ascii_runtime [] (js ''U.S.A.'') = [js ''USA'']
   \<and> \<not> rx_test acronymRegex (js ''Room23a'')
   \<and> \<not> rx_test dot_dottedAcronymRegex (js ''Room23a'')
   \<and> token_fields ascii_runtime (js ''Room23a'') = [js ''Room'', js ''twenty'', js ''three'', js ''a'']
   \<and> dot_token ascii_runtime [] (js ''Room23a'')
       = [js ''room'', js ''twenty'', js ''three'', js ''a'']"
  using toDotCase_joins_units [where U = ascii_runtime and s = "js ''the U.S.A. team''"
      and t = "js ''U.S.A.''" and w = "js ''Room23a''"]
  by (simp add: all_eval token_fields_def part_fields_def number_fields_def text_fields_def
      floor_numeral_quotient)

section \<open>Acronyms in toCamelCase\<close>

text \<open>
  C4. A token that matches one of the two acronym patterns of \<^verbatim>\<open>toCamelCase\<close> gives
  exactly one unit, of type acronym, whose text is the token without its dots; that text
  stands unchanged in the result, after the rendering of the units before it (which is
  empty when the acronym is the first unit) and before the rendering of the units after it.
\<close>

theorem acronym_token_kept:
  assumes "rawTokens U (trim s) = before @ t # after"
    and "rx_test acronymRegex t \<or> rx_test dottedAcronymRegex t"
  shows "camel_token U units t = units @ [\<lparr>u_type = acronym, u_text = remove_dots t\<rparr>]
    \<and> camel_units U (rawTokens U (trim s))
        = camel_units U before @ \<lparr>u_type = acronym, u_text = remove_dots t\<rparr> # camel_units U after
    \<and> toCamelCase U (JStr s)
        = camel_render U (camel_units U before) @ remove_dots t
          @ concat (map (camel_piece U (Suc 0)) (camel_units U after))"
proof -
  let ?a = "\<lparr>u_type = acronym, u_text = remove_dots t\<rparr>"
  from assms(2) have tok: "camel_token U units t = units @ [?a]" for units
    by (simp add: camel_token_eq)
  have units: "camel_units U (rawTokens U (trim s)) = camel_units U before @ ?a # camel_units U after"
    by (simp add: assms(1) camel_units_concat tok [of "[]"])
  from assms(1) have "rawTokens U (trim s) \<noteq> []" by simp
  moreover from this have "trim s \<noteq> []" using rawTokens_Nil [of U] by auto
  ultimately have "toCamelCase U (JStr s) = camel_render U (camel_units U (rawTokens U (trim s)))"
    by (simp add: camel_string_cases units)
  then have "toCamelCase U (JStr s)
        = camel_render U (camel_units U before) @ remove_dots t
          @ concat (map (camel_piece U (Suc 0)) (camel_units U after))"
    by (simp add: units camel_render_acronym)
  with tok units show ?thesis by simp
qed

theorem acronym_token_kept_witness:
  "rawTokens ascii_runtime (trim (js ''the U.S.A. team'')) = [js ''the''] @ js ''U.S.A.'' # [js ''team'']
   \<and> rx_test dottedAcronymRegex (js ''U.S.A.'')
   \<and> camel_token ascii_runtime [] (js ''U.S.A.'') = [\<lparr>u_type = acronym, u_text = js ''USA''\<rparr>]
   \<and> toCamelCase ascii_runtime (JStr (js ''the U.S.A. team'')) = js ''theUSATeam''
   \<and> rawTokens ascii_runtime (trim (js ''NATO.GOV rules'')) = [] @ js ''NATO.GOV'' # [js ''rules'']
   \<and> rx_test acronymRegex (js ''NATO.GOV'')
   \<and> toCamelCase ascii_runtime (JStr (js ''NATO.GOV rules'')) = js ''NATOGOVRules''"
  using acronym_token_kept [where U = ascii_runtime and s = "js ''the U.S.A. team''"
      and before = "[js ''the'']" and t = "js ''U.S.A.''" and after = "[js ''team'']"
      and units = "[]"]
    acronym_token_kept [where U = ascii_runtime and s = "js ''NATO.GOV rules''"
      and before = "[]" and t = "js ''NATO.GOV''" and after = "[js ''rules'']"
      and units = "[]"]
  by (simp add: all_eval)

section \<open>toCamelCase and toDotCase on plain text\<close>

lemma set_trim: "set (trim s) \<subseteq> set s"
proof
  fix x
  assume "x \<in> set (trim s)"
  then have "x \<in> set (dropWhile is_space (rev (dropWhile is_space s)))"
    by (simp add: trim_def)
  then have "x \<in> set (rev (dropWhile is_space s))" by (rule set_dropWhileD)
  then have "x \<in> set (dropWhile is_space s)" by simp
  then show "x \<in> set s" by (rule set_dropWhileD)
qed

lemma code_points_ascii: "list_all is_ascii xs \<Longrightarrow> code_points xs = map (\<lambda>c. [c]) xs"
  by (induction xs rule: code_points.induct)
     (auto simp: is_ascii_def is_high_surrogate_def)

lemma replace_runs_set:
  "y \<in> set (replace_runs P r ys) \<Longrightarrow> y = r \<or> (y \<in> set ys \<and> \<not> P y)"
  by (induction ys) (auto split: if_splits)

lemma split_runs_field:
  "f \<in> set (split_runs P zs) \<Longrightarrow> c \<in> set f \<Longrightarrow> c \<in> set zs \<and> \<not> P c"
proof (induction zs arbitrary: f)
  case Nil
  then show ?case by simp
next
  case (Cons z zs)
  show ?case
  proof (cases "P z")
    case True
    with Cons.prems have "f \<in> set (split_runs P zs) \<or> f = []"
      by (auto split: if_splits)
    with Cons.prems(2) Cons.IH show ?thesis by auto
  next
    case False
    show ?thesis
    proof (cases "split_runs P zs")
      case Nil
      with False Cons.prems show ?thesis by auto
    next
      case (Cons g gs)
      with False Cons.prems(1) have "f = z # g \<or> f \<in> set gs" by auto
      then show ?thesis
      proof
        assume "f = z # g"
        with Cons.prems(2) have "c = z \<or> c \<in> set g" by auto
        moreover have "g \<in> set (split_runs P zs)" using Cons by simp
        ultimately show ?thesis using False Cons.IH [of g] by auto
      next
        assume "f \<in> set gs"
        then have "f \<in> set (split_runs P zs)" using Cons by simp
        with Cons.prems(2) Cons.IH [of f] show ?thesis by auto
      qed
    qed
  qed
qed

lemma ascii_text_char_ascii: "ascii_text_char c \<Longrightarrow> is_ascii c \<and> \<not> is_digit c"
  by (auto simp: ascii_text_char_def ascii_letter_def ascii_whitespace_def
      ascii_punctuation_def char_class_defs)

lemma cleaned_ascii_text:
  assumes "list_all ascii_text_char xs" and "c \<in> set (cleaned U xs)"
  shows "ascii_letter c \<or> c = 46 \<or> is_space c"
proof -
  from assms(1) have "list_all is_ascii xs"
    by (induction xs) (auto dest: ascii_text_char_ascii)
  then have cp: "code_points xs = map (\<lambda>c. [c]) xs" by (rule code_points_ascii)
  from assms(2) obtain p where
    p: "p \<in> set (replace_runs (\<lambda>cp. \<not> (is_L U cp \<or> is_N U cp \<or> cp = [46] \<or> is_space_cp cp))
          [32] (map (\<lambda>c. [c]) xs))" and c: "c \<in> set p"
    unfolding cleaned_def cp by auto
  from replace_runs_set [OF p]
  show ?thesis
  proof
    assume "p = [32]"
    with c show ?thesis by (simp add: is_space_def)
  next
    assume "p \<in> set (map (\<lambda>c. [c]) xs) \<and>
      \<not> \<not> (is_L U p \<or> is_N U p \<or> p = [46] \<or> is_space_cp p)"
    with c have "c \<in> set xs" and k: "is_L U [c] \<or> is_N U [c] \<or> c = 46 \<or> is_space_cp [c]"
      by auto
    from \<open>c \<in> set xs\<close> assms(1) have "ascii_text_char c" by (simp add: list_all_iff)
    then have "is_ascii c" "\<not> is_digit c" by (auto dest: ascii_text_char_ascii)
    with k show ?thesis by (auto simp: is_L_def is_N_def is_space_cp_def ascii_letter_def)
  qed
qed

lemma rawTokens_ascii_text:
  assumes "list_all ascii_text_char s" and "t \<in> set (rawTokens U (trim s))"
  shows "t \<noteq> [] \<and> list_all (\<lambda>c. ascii_letter c \<or> c = 46) t"
proof -
  from assms(1) set_trim [of s] have a: "list_all ascii_text_char (trim s)"
    by (auto simp: list_all_iff)
  from assms(2) have t: "t \<noteq> []" "t \<in> set (split_runs is_space (cleaned U (trim s)))"
    by (auto simp: rawTokens_def non_empty_def)
  have "ascii_letter c \<or> c = 46" if "c \<in> set t" for c
    using split_runs_field [OF t(2) that] cleaned_ascii_text [OF a, of c U] by auto
  with t(1) show ?thesis by (auto simp: list_all_iff)
qed

lemma split_keep_none: "list_all (\<lambda>c. \<not> P c) t \<Longrightarrow> split_keep P t = [t]"
  by (induction t) auto

lemma deriv_stuck: "foldl (\<lambda>r c. deriv c r) (Cat Fail r) cs = Cat Fail r"
  by (induction cs) auto

lemma digit_run_fails: "t \<noteq> [] \<Longrightarrow> \<not> is_digit (hd t) \<Longrightarrow> \<not> rx_test digit_run t"
  by (cases t) (simp_all add: rx_test_def digit_run_def one_or_more_def deriv_stuck)

lemma letters_only:
  assumes "list_all ascii_letter p"
  shows "only_letters U p = p"
proof -
  from assms have "list_all is_ascii p"
    by (induction p) (auto simp: ascii_letter_def char_class_defs)
  then have "code_points p = map (\<lambda>c. [c]) p" by (rule code_points_ascii)
  moreover from assms have "filter (is_L U) (map (\<lambda>c. [c]) p) = map (\<lambda>c. [c]) p"
    by (induction p) (auto simp: is_L_def ascii_letter_def char_class_defs)
  moreover have "concat (map (\<lambda>c. [c]) p) = p" by (induction p) auto
  ultimately show ?thesis by (simp add: only_letters_def)
qed

lemma letters_lower:
  assumes "list_all ascii_letter p" and "p \<noteq> []"
  shows "lowercase_word (toLowerCase U p)"
proof -
  from assms(1) have "list_all is_ascii p"
    by (induction p) (auto simp: ascii_letter_def char_class_defs)
  moreover from assms(1) have "list_all is_lower_az (map ascii_lower p)"
    by (induction p) (auto simp: ascii_letter_def ascii_lower_def char_class_defs)
  ultimately show ?thesis using assms(2) by (simp add: toLowerCase_def lowercase_word_def)
qed

lemma replace_each_set:
  "y \<in> set (replace_each P r ys) \<Longrightarrow> y = r \<or> (y \<in> set ys \<and> \<not> P y)"
  by (induction ys) (auto split: if_splits)

lemma text_fields_letters:
  assumes "list_all (\<lambda>c. ascii_letter c \<or> c = 46) t" and "p \<in> set (text_fields U t)"
  shows "list_all ascii_letter p \<and> p \<noteq> []"
proof -
  define fs where "fs = non_empty (split_runs is_space (replace_each (\<lambda>c. c = 46) 32 t))"
  have letters: "list_all ascii_letter f" if "f \<in> set fs" for f
  proof -
    from that have f: "f \<in> set (split_runs is_space (replace_each (\<lambda>c. c = 46) 32 t))"
      by (simp add: fs_def non_empty_def)
    have "ascii_letter c" if "c \<in> set f" for c
    proof -
      from split_runs_field [OF f that]
      have c: "c \<in> set (replace_each (\<lambda>c. c = 46) 32 t)" "\<not> is_space c" by auto
      from replace_each_set [OF c(1)] c(2) have "c \<in> set t" "c \<noteq> 46"
        by (auto simp: is_space_def)
      with assms(1) show ?thesis by (auto simp: list_all_iff)
    qed
    then show ?thesis by (simp add: list_all_iff)
  qed
  then have "map (only_letters U) fs = fs"
    by (simp add: map_idI letters_only)
  then have "text_fields U t = non_empty fs"
    by (simp add: text_fields_def fs_def)
  with assms(2) have "p \<in> set fs" and "p \<noteq> []" by (simp_all add: non_empty_def)
  with letters [of p] show ?thesis by simp
qed

lemma token_fields_text:
  assumes "t \<noteq> []" and "list_all (\<lambda>c. ascii_letter c \<or> c = 46) t"
  shows "token_fields U t = text_fields U t"
proof -
  from assms(2) have nd: "list_all (\<lambda>c. \<not> is_digit c) t"
    by (induction t) (auto simp: ascii_letter_def char_class_defs)
  then have "split_keep is_digit t = [t]" by (rule split_keep_none)
  moreover from assms(1) nd have "\<not> rx_test digit_run t"
    by (intro digit_run_fails) (auto simp: list_all_iff)
  ultimately show ?thesis using assms(1)
    by (simp add: token_fields_def part_fields_def non_empty_def)
qed

lemma token_words_lowercase:
  assumes "t \<noteq> []" and "list_all (\<lambda>c. ascii_letter c \<or> c = 46) t"
  shows "list_all lowercase_word (map (toLowerCase U) (token_fields U t))"
proof -
  have "lowercase_word (toLowerCase U p)" if "p \<in> set (text_fields U t)" for p
    using text_fields_letters [OF assms(2) that] by (simp add: letters_lower)
  then show ?thesis
    by (simp add: token_fields_text [OF assms] list_all_iff)
qed

lemma split_on_join:
  "ws \<noteq> [] \<Longrightarrow> \<forall>w \<in> set ws. d \<notin> set w \<Longrightarrow> split_on d (join [d] ws) = ws"
proof (induction "[d]" ws rule: join.induct)
  case 1
  then show ?case by simp
next
  case (2 x)
  then have "d \<notin> set x" by simp
  then have "split_on d x = [x]" by (induction x) auto
  then show ?case by simp
next
  case (3 x y ys)
  then have x: "d \<notin> set x" and IH: "split_on d (join [d] (y # ys)) = y # ys" by auto
  have "split_on d (x @ d # zs) = x # split_on d zs" for zs
    using x by (induction x) (auto split: list.splits)
  then show ?case using IH by simp
qed

lemma lowercase_word_props:
  assumes "lowercase_word w"
  shows "46 \<notin> set w" and "toLowerCase U w = w"
    and "toUpperCase U (take (Suc 0) w) @ toLowerCase U (drop (Suc 0) w) = capitalize w"
proof -
  from assms have az: "list_all is_lower_az w" and ne: "w \<noteq> []"
    by (simp_all add: lowercase_word_def)
  from az show "46 \<notin> set w" by (auto simp: list_all_iff is_lower_az_def)
  from az have asc: "list_all is_ascii w"
    by (induction w) (auto simp: char_class_defs)
  from az have low: "map ascii_lower w = w"
    by (induction w) (auto simp: ascii_lower_def char_class_defs)
  from asc low show "toLowerCase U w = w" by (simp add: toLowerCase_def)
  from ne obtain c cs where w: "w = c # cs" by (cases w) auto
  with asc low
  show "toUpperCase U (take (Suc 0) w) @ toLowerCase U (drop (Suc 0) w) = capitalize w"
    by (simp add: toUpperCase_def toLowerCase_def capitalize_def)
qed


lemma plain_token_units:
  assumes "list_all ascii_text_char s" and "t \<in> set (rawTokens U (trim s))"
    and "no_acronym t"
  shows "camel_token U [] t = map mk_word (map (toLowerCase U) (token_fields U t))"
    and "dot_token U [] t = map (toLowerCase U) (token_fields U t)"
    and "list_all lowercase_word (map (toLowerCase U) (token_fields U t))"
proof -
  from assms(3) show "camel_token U [] t = map mk_word (map (toLowerCase U) (token_fields U t))"
    by (simp add: camel_token_eq no_acronym_def)
  from assms(3) show "dot_token U [] t = map (toLowerCase U) (token_fields U t)"
    by (simp add: dot_token_eq no_acronym_def)
  from rawTokens_ascii_text [OF assms(1,2)]
  show "list_all lowercase_word (map (toLowerCase U) (token_fields U t))"
    by (simp add: token_words_lowercase)
qed

lemma camel_render_words:
  assumes "list_all lowercase_word (w # ws)"
  shows "camel_render U (mk_word w # map mk_word ws) = w @ concat (map capitalize ws)"
proof -
  from assms have w: "lowercase_word w" and ws: "\<forall>v \<in> set ws. lowercase_word v"
    by (simp_all add: list_all_iff)
  have "camel_piece U (Suc 0) (mk_word v) = capitalize v" if "v \<in> set ws" for v
    using ws that by (simp add: camel_piece_def mk_word_def lowercase_word_props(3))
  then have "map (camel_piece U (Suc 0)) (map mk_word ws) = map capitalize ws"
    by simp
  moreover have "camel_piece U 0 (mk_word w) = w"
    using w by (simp add: camel_piece_def mk_word_def lowercase_word_props(2))
  ultimately show ?thesis by (simp only: camel_render_Cons)
qed

text \<open>
  C7, as amended. For an input of ASCII letters, whitespace and punctuation none of whose
  tokens matches an acronym pattern of either function, \<^verbatim>\<open>toCamelCase\<close> and
  \<^verbatim>\<open>toDotCase\<close> produce the same sequence of units, all of them words of lower-case
  letters; and when that sequence is not empty, splitting the result of \<^verbatim>\<open>toDotCase\<close>
  on \<^verbatim>\<open>.\<close> gives exactly these words, and the result of \<^verbatim>\<open>toCamelCase\<close> is the
  first word followed by the later words capitalized. When the sequence is empty both
  functions return the same error message: the one for an empty trimmed input, for no
  token, or for no word unit.
\<close>

theorem same_word_units:
  assumes "list_all ascii_text_char s"
    and "list_all no_acronym (rawTokens U (trim s))"
  shows "map u_text (camel_units U (rawTokens U (trim s))) = dot_words U (rawTokens U (trim s))
    \<and> list_all (\<lambda>u. u_type u = word) (camel_units U (rawTokens U (trim s)))
    \<and> list_all lowercase_word (dot_words U (rawTokens U (trim s)))
    \<and> (dot_words U (rawTokens U (trim s)) \<noteq> [] \<longrightarrow>
         split_on 46 (toDotCase U (JStr s)) = dot_words U (rawTokens U (trim s))
         \<and> toCamelCase U (JStr s)
             = hd (dot_words U (rawTokens U (trim s)))
               @ concat (map capitalize (tl (dot_words U (rawTokens U (trim s))))))
    \<and> (dot_words U (rawTokens U (trim s)) = [] \<longrightarrow>
         toCamelCase U (JStr s) = toDotCase U (JStr s)
         \<and> toDotCase U (JStr s)
             = (if trim s = [] then js ''Invalid input: empty or whitespace-only string.''
                else if rawTokens U (trim s) = []
                then js ''Invalid input: no usable words found after cleaning.''
                else js ''Invalid input: no word tokens produced after processing.''))"
proof -
  define toks where "toks = rawTokens U (trim s)"
  define ws where "ws = dot_words U toks"
  have tok: "t \<in> set toks \<Longrightarrow> no_acronym t" for t
    using assms(2) by (simp add: toks_def list_all_iff)
  have dot: "ws = concat (map (\<lambda>t. map (toLowerCase U) (token_fields U t)) toks)"
    unfolding ws_def dot_words_concat
    using plain_token_units(2) [OF assms(1) _ tok, of _ U]
    by (simp add: toks_def cong: map_cong)
  have "camel_units U toks
      = concat (map (\<lambda>t. map mk_word (map (toLowerCase U) (token_fields U t))) toks)"
    unfolding camel_units_concat
    using plain_token_units(1) [OF assms(1) _ tok, of _ U]
    by (simp add: toks_def cong: map_cong)
  then have camel: "camel_units U toks = map mk_word ws"
    by (simp add: dot map_concat o_def)
  have low: "list_all lowercase_word ws"
    unfolding dot using plain_token_units(3) [OF assms(1) _ tok, of _ U]
    by (auto simp: toks_def list_all_iff)
  have texts: "map u_text (camel_units U toks) = ws"
    by (simp add: camel mk_word_def o_def)
  have kinds: "list_all (\<lambda>u. u_type u = word) (camel_units U toks)"
    by (simp add: camel mk_word_def list_all_iff)
  have rendered: "split_on 46 (toDotCase U (JStr s)) = ws
      \<and> toCamelCase U (JStr s) = hd ws @ concat (map capitalize (tl ws))" if ne: "ws \<noteq> []"
  proof -
    from ne have t1: "toks \<noteq> []" by (auto simp: ws_def dot_words_def)
    then have t2: "trim s \<noteq> []" using rawTokens_Nil [of U] by (auto simp: toks_def)
    from ne t1 t2 have d: "toDotCase U (JStr s) = join [46] ws"
      by (simp add: dot_string_cases toks_def ws_def)
    from low have "\<forall>w \<in> set ws. 46 \<notin> set w"
      by (auto simp: list_all_iff dest: lowercase_word_props(1))
    with ne have "split_on 46 (join [46] ws) = ws" by (rule split_on_join)
    moreover from ne t1 t2 have "toCamelCase U (JStr s) = camel_render U (map mk_word ws)"
      using camel by (simp add: camel_string_cases toks_def)
    moreover from ne obtain w rest where "ws = w # rest" by (cases ws) auto
    ultimately show ?thesis using low d by (simp add: camel_render_words)
  qed
  have failed: "toCamelCase U (JStr s) = toDotCase U (JStr s)
      \<and> toDotCase U (JStr s)
          = (if trim s = [] then js ''Invalid input: empty or whitespace-only string.''
             else if toks = []
             then js ''Invalid input: no usable words found after cleaning.''
             else js ''Invalid input: no word tokens produced after processing.'')"
    if e: "ws = []"
  proof -
    from e camel have "camel_units U toks = []" by simp
    moreover from e have "dot_words U toks = []" by (simp add: ws_def)
    ultimately show ?thesis
      by (simp add: camel_string_cases dot_string_cases toks_def err_empty_def
          err_no_words_def err_no_units_def)
  qed
  from texts kinds low rendered failed show ?thesis
    by (simp add: toks_def ws_def)
qed

theorem same_word_units_witness:
  "list_all ascii_text_char (js ''Hello, Big.World'')
   \<and> rawTokens ascii_runtime (trim (js ''Hello, Big.World'')) = [js ''Hello'', js ''Big.World'']
   \<and> no_acronym (js ''Hello'') \<and> no_acronym (js ''Big.World'')
   \<and> dot_words ascii_runtime [js ''Hello'', js ''Big.World'']
       = [js ''hello'', js ''big'', js ''world'']
   \<and> map u_text (camel_units ascii_runtime [js ''Hello'', js ''Big.World''])
       = [js ''hello'', js ''big'', js ''world'']
   \<and> toDotCase ascii_runtime (JStr (js ''Hello, Big.World'')) = js ''hello.big.world''
   \<and> split_on 46 (js ''hello.big.world'') = [js ''hello'', js ''big'', js ''world'']
   \<and> toCamelCase ascii_runtime (JStr (js ''Hello, Big.World'')) = js ''helloBigWorld''
   \<and> list_all ascii_text_char (js ''!!!'')
   \<and> rawTokens ascii_runtime (trim (js ''!!!'')) = []
   \<and> dot_words ascii_runtime [] = []
   \<and> toCamelCase ascii_runtime (JStr (js ''!!!''))
       = js ''Invalid input: no usable words found after cleaning.''
   \<and> toDotCase ascii_runtime (JStr (js ''!!!''))
       = js ''Invalid input: no usable words found after cleaning.''
   \<and> list_all ascii_text_char (js ''. .'')
   \<and> rawTokens ascii_runtime (trim (js ''. .'')) = [js ''.'', js ''.'']
   \<and> no_acronym (js ''.'')
   \<and> dot_words ascii_runtime [js ''.'', js ''.''] = []
   \<and> toCamelCase ascii_runtime (JStr (js ''. .''))
       = js ''Invalid input: no word tokens produced after processing.''
   \<and> toDotCase ascii_runtime (JStr (js ''. .''))
       = js ''Invalid input: no word tokens produced after processing.''"
  using same_word_units [of "js ''Hello, Big.World''" ascii_runtime]
    same_word_units [of "js ''!!!''" ascii_runtime]
    same_word_units [of "js ''. .''" ascii_runtime]
  by (simp add: all_eval text_eval)

text \<open>
  C7 as stated fails on an input that produces no word: \<^verbatim>\<open>!!!\<close> is not empty and
  consists of ASCII punctuation, both functions produce no unit and return an error
  message, and splitting the message of \<^verbatim>\<open>toDotCase\<close> on \<^verbatim>\<open>.\<close> gives two strings,
  not the empty word list.
\<close>

theorem split_of_error_message_counterexample:
  "js ''!!!'' \<noteq> []
   \<and> list_all ascii_text_char (js ''!!!'')
   \<and> list_all no_acronym (rawTokens ascii_runtime (trim (js ''!!!'')))
   \<and> map u_text (camel_units ascii_runtime (rawTokens ascii_runtime (trim (js ''!!!'')))) = []
   \<and> dot_words ascii_runtime (rawTokens ascii_runtime (trim (js ''!!!''))) = []
   \<and> toDotCase ascii_runtime (JStr (js ''!!!''))
       = js ''Invalid input: no usable words found after cleaning.''
   \<and> toCamelCase ascii_runtime (JStr (js ''!!!''))
       = js ''Invalid input: no usable words found after cleaning.''
   \<and> split_on 46 (toDotCase ascii_runtime (JStr (js ''!!!'')))
       = [js ''Invalid input: no usable words found after cleaning'', []]
   \<and> split_on 46 (toDotCase ascii_runtime (JStr (js ''!!!'')))
       \<noteq> map u_text (camel_units ascii_runtime (rawTokens ascii_runtime (trim (js ''!!!''))))"
  by (simp add: all_eval text_eval)

end
